theory Spec2Isabelle
  imports Complex_Main "HOL-Library.Sublist" "HOL-Library.AList"
begin

section \<open>Python string primitives\<close>

text \<open>
  Strings are byte lists. \<open>lower\<close> is \<open>str.lower()\<close> on ASCII letters; \<open>str_in p t\<close> is
  Python's \<open>p in t\<close> on strings (contiguous substring; the empty string is in every
  string). Float values are real numbers; NaN and infinities are not modelled.
\<close>

definition lower_char :: "char \<Rightarrow> char" where
  "lower_char c =
     (case map_of (zip ''ABCDEFGHIJKLMNOPQRSTUVWXYZ'' ''abcdefghijklmnopqrstuvwxyz'') c of
        Some d \<Rightarrow> d
      | None \<Rightarrow> c)"

definition lower :: "string \<Rightarrow> string" where
  "lower s = map lower_char s"

fun str_in :: "string \<Rightarrow> string \<Rightarrow> bool" where
  "str_in p [] = (p = [])"
| "str_in p (c # cs) = (prefix p (c # cs) \<or> str_in p cs)"

text \<open>\<open>any(k in t for k in ks)\<close>\<close>

definition any_in :: "string list \<Rightarrow> string \<Rightarrow> bool" where
  "any_in ks t = list_ex (\<lambda>k. str_in k t) ks"

text \<open>\<open>s or ""\<close> for an optional string.\<close>

definition or_empty :: "string option \<Rightarrow> string" where
  "or_empty s = (case s of None \<Rightarrow> [] | Some x \<Rightarrow> x)"

text \<open>\<open>sep.join(xs)\<close>\<close>

fun join :: "string \<Rightarrow> string list \<Rightarrow> string" where
  "join sep [] = []"
| "join sep [x] = x"
| "join sep (x # y # ys) = x @ sep @ join sep (y # ys)"

section \<open>Float arithmetic\<close>

text \<open>
  The decision engine averages scores with the built-in \<open>sum\<close> and float division, and
  tests the rounded result against its thresholds. Both operations are parameters of
  the model (\<open>float_ops\<close>): the built-in sum of floats is a left-to-right rounded
  addition up to CPython 3.11 and a compensated summation from 3.12 on, so what holds
  for every \<open>float_ops\<close> holds for either. Comparisons and \<open>max\<close> are exact on floats.
\<close>

record float_ops =
  fp_sum :: "real list \<Rightarrow> real"
  fp_div :: "real \<Rightarrow> real \<Rightarrow> real"

text \<open>
  The IEEE 754 binary64 instance: round to nearest, ties to even, 53 significant bits,
  subnormals below \<open>2 ^ -1022\<close>; overflow to infinity is not modelled. \<open>rne\<close> rounds a
  real to the nearest integer, ties to even; \<open>expo x\<close> is \<open>\<lfloor>log\<^sub>2 \<bar>x\<bar>\<rfloor>\<close>, found by
  halving or doubling at most 1100 times.
\<close>

definition rne :: "real \<Rightarrow> int" where
  "rne q = (let f = \<lfloor>q\<rfloor>; d = q - of_int f in
            if d < 1 / 2 then f else if 1 / 2 < d then f + 1
            else if even f then f else f + 1)"

fun log2_up :: "nat \<Rightarrow> real \<Rightarrow> int" where
  "log2_up 0 y = 0"
| "log2_up (Suc k) y = (if y < 2 then 0 else 1 + log2_up k (y / 2))"

fun log2_down :: "nat \<Rightarrow> real \<Rightarrow> int" where
  "log2_down 0 y = 0"
| "log2_down (Suc k) y = (if 1 \<le> y then 0 else log2_down k (y * 2) - 1)"

definition expo :: "real \<Rightarrow> int" where
  "expo x = (if 1 \<le> \<bar>x\<bar> then log2_up 1100 \<bar>x\<bar> else log2_down 1100 \<bar>x\<bar>)"

definition pow2 :: "int \<Rightarrow> real" where
  "pow2 e = (if 0 \<le> e then 2 ^ nat e else 1 / 2 ^ nat (- e))"

definition round64 :: "real \<Rightarrow> real" where
  "round64 x = (if x = 0 then 0
                else (let ulp = pow2 (max (expo x) (- 1022) - 52)
                      in of_int (rne (x / ulp)) * ulp))"

text \<open>\<open>sum(xs)\<close> as rounded additions from the left, and \<open>x / y\<close>.\<close>

definition sum64 :: "real list \<Rightarrow> real" where
  "sum64 xs = foldl (\<lambda>a x. round64 (a + x)) 0 xs"

definition div64 :: "real \<Rightarrow> real \<Rightarrow> real" where
  "div64 x y = round64 (x / y)"

definition binary64 :: float_ops where
  "binary64 = \<lparr> fp_sum = sum64, fp_div = div64 \<rparr>"

section \<open>Data model\<close>

text \<open>
  An evidence item is a dict read with \<open>.get\<close>; an absent key and the value \<open>None\<close> are
  both \<open>None\<close>. \<open>ev_rerank_score\<close> is the key \<open>_rerank_score\<close> added by the reranker.
\<close>

record evidence =
  ev_authority :: "string option"
  ev_doc_key :: "string option"
  ev_doc_title :: "string option"
  ev_paragraph_ref :: "string option"
  ev_page_start :: "int option"
  ev_page_end :: "int option"
  ev_source_path :: "string option"
  ev_score :: "real option"
  ev_text :: "string option"
  ev_snippet :: "string option"
  ev_rerank_score :: "real option"

record citation =
  ct_authority :: "string option"
  ct_doc_key :: "string option"
  ct_doc_title :: "string option"
  ct_paragraph_ref :: "string option"
  ct_page_start :: "int option"
  ct_page_end :: "int option"
  ct_source_path :: "string option"
  ct_score :: "real option"

text \<open>
  A retrieval output or policy block: \<open>b_ok\<close> is the truthiness of \<open>get("ok")\<close>,
  \<open>b_results\<close> and \<open>b_evidence\<close> are \<open>get(...) or []\<close>.
\<close>

record block =
  b_ok :: bool
  b_reason :: "string option"
  b_results :: "evidence list"
  b_evidence :: "evidence list"
  b_citations :: "citation list"

text \<open>A precedent result and a precedent block.\<close>

record precedent =
  pr_decision :: "string option"
  pr_reasons_text :: "string option"
  pr_officer_report_text :: "string option"
  pr_conditions_text :: "string option"
  pr_score :: "real option"

record case_block =
  cb_ok :: bool
  cb_reason :: "string option"
  cb_results :: "precedent list"

text \<open>Values stored in a returned recommendation dict.\<close>

datatype pyval =
    PNone
  | PStr string
  | PFloat real
  | PStrs "string list"
  | PDict "(string \<times> pyval) list"

type_synonym pydict = "(string \<times> pyval) list"

text \<open>\<open>d.get(k)\<close> on a returned dict: \<open>None\<close> when the key is absent.\<close>

definition dget :: "pydict \<Rightarrow> string \<Rightarrow> pyval option" where
  "dget d k = map_of d k"

section \<open>EvidenceGate: policy\_evidence.py\<close>

definition cite :: "evidence \<Rightarrow> citation" where
  "cite r = \<lparr> ct_authority = ev_authority r, ct_doc_key = ev_doc_key r,
              ct_doc_title = ev_doc_title r, ct_paragraph_ref = ev_paragraph_ref r,
              ct_page_start = ev_page_start r, ct_page_end = ev_page_end r,
              ct_source_path = ev_source_path r, ct_score = ev_score r \<rparr>"

text \<open>\<open>retrieval_out.get("reason") or "Insufficient policy evidence"\<close>\<close>

definition reason_or_default :: "string option \<Rightarrow> string" where
  "reason_or_default r =
     (case r of None \<Rightarrow> ''Insufficient policy evidence''
      | Some s \<Rightarrow> if s = [] then ''Insufficient policy evidence'' else s)"

definition require_policy_evidence :: "block \<Rightarrow> int \<Rightarrow> block" where
  "require_policy_evidence retrieval_out min_results =
     (let ok = b_ok retrieval_out; results = b_results retrieval_out in
      if (\<not> ok) \<or> int (length results) < min_results
      then \<lparr> b_ok = False, b_reason = Some (reason_or_default (b_reason retrieval_out)),
             b_results = [], b_evidence = [], b_citations = [] \<rparr>
      else \<lparr> b_ok = True, b_reason = None, b_results = [],
             b_evidence = results, b_citations = map cite results \<rparr>)"

section \<open>Decision engine, precedent-aware: judgment.py\<close>

definition AMENITY_WORDS :: "string list" where
  "AMENITY_WORDS = [''residential amenity'', ''privacy'', ''overlooking'', ''daylight'',
                    ''sunlight'', ''outlook'', ''noise'', ''disturbance'']"

definition DESIGN_WORDS :: "string list" where
  "DESIGN_WORDS = [''design'', ''character'', ''scale'', ''massing'', ''materials'',
                   ''appearance'']"

definition HERITAGE_WORDS :: "string list" where
  "HERITAGE_WORDS = [''heritage'', ''listed'', ''conservation area'', ''setting'',
                     ''significance'']"

definition HIGHWAYS_WORDS :: "string list" where
  "HIGHWAYS_WORDS = [''highway'', ''parking'', ''traffic'', ''access'', ''visibility'',
                     ''junction'']"

definition FLOOD_WORDS :: "string list" where
  "FLOOD_WORDS = [''flood'', ''drainage'', ''surface water'', ''suds'']"

definition TREES_WORDS :: "string list" where
  "TREES_WORDS = [''tree'', ''tpo'', ''arboricultural'', ''hedgerow'']"

definition detect_issues :: "string option \<Rightarrow> string list" where
  "detect_issues proposal_text =
     (let t = lower (or_empty proposal_text);
          issues =
            (if any_in [''rear extension'', ''single storey'', ''two storey'', ''loft'',
                        ''dormer'', ''outbuilding'', ''porch''] t then [''householder''] else [])
            @ (if any_in AMENITY_WORDS t then [''amenity''] else [])
            @ (if any_in DESIGN_WORDS t then [''design''] else [])
            @ (if any_in HERITAGE_WORDS t then [''heritage''] else [])
            @ (if any_in HIGHWAYS_WORDS t then [''highways''] else [])
            @ (if any_in FLOOD_WORDS t then [''flood''] else [])
            @ (if any_in TREES_WORDS t then [''trees''] else []);
          issues2 = (if issues = [] then [''general''] else issues)
      in rev (remdups (rev issues2)))"

text \<open>\<open>float(e.get("score") or 0.0)\<close>\<close>

definition score_or_zero :: "real option \<Rightarrow> real" where
  "score_or_zero s = (case s of None \<Rightarrow> 0 | Some x \<Rightarrow> x)"

text \<open>
  \<open>_avg_top_scores\<close>: the scores sorted in descending order, the first \<open>n\<close> averaged as
  \<open>sum(top) / max(1, len(top))\<close>.
\<close>

definition avg_top :: "float_ops \<Rightarrow> real list \<Rightarrow> nat \<Rightarrow> real" where
  "avg_top fp scores n =
     (if scores = [] then 0
      else (let top = take n (rev (sort scores))
            in fp_div fp (fp_sum fp top) (real (max 1 (length top)))))"

definition policy_ev :: "block \<Rightarrow> evidence list" where
  "policy_ev pb = (if b_evidence pb \<noteq> [] then b_evidence pb else b_results pb)"

definition policy_strength :: "float_ops \<Rightarrow> block option \<Rightarrow> bool \<times> real \<times> string" where
  "policy_strength fp policy_block =
     (case policy_block of
        None \<Rightarrow> (False, 0, ''no_policy_results'')
      | Some pb \<Rightarrow>
          if \<not> b_ok pb then (False, 0, ''no_policy_results'')
          else (let ev = policy_ev pb;
                    avg = avg_top fp (map (\<lambda>e. score_or_zero (ev_score e)) ev) 6
                in if length ev < 3 then (False, avg, ''policy_results_too_few'')
                   else if avg < 3 then (False, avg, ''policy_scores_too_low'')
                   else (True, avg, ''ok'')))"

definition case_strength :: "float_ops \<Rightarrow> case_block option \<Rightarrow> bool \<times> real \<times> string" where
  "case_strength fp cb_opt =
     (case cb_opt of
        None \<Rightarrow> (False, 0, ''precedents_not_enabled'')
      | Some cb \<Rightarrow>
          if \<not> cb_ok cb then
            (False, 0, (case cb_reason cb of None \<Rightarrow> ''no_case_results''
                        | Some s \<Rightarrow> if s = [] then ''no_case_results'' else s))
          else (let ev = cb_results cb;
                    avg = avg_top fp (map (\<lambda>e. score_or_zero (pr_score e)) ev) 5
                in if length ev < 1 then (False, avg, ''case_results_too_few'')
                   else if avg < 2 then (False, avg, ''case_scores_too_low'')
                   else (True, avg, ''ok'')))"

definition COND_PLANS :: string where
  "COND_PLANS = ''The development hereby approved shall be carried out in accordance with the approved plans and supporting documents.''"

definition COND_MATERIALS :: string where
  "COND_MATERIALS = ''External materials shall match the existing dwelling unless otherwise agreed in writing by the Local Planning Authority.''"

definition COND_GLAZING :: string where
  "COND_GLAZING = ''Any side-facing windows serving habitable rooms shall be obscure glazed and non-opening below 1.7m from finished floor level.''"

definition REFUSAL_AMENITY :: string where
  "REFUSAL_AMENITY = ''The proposal would result in unacceptable harm to the residential amenity of neighbouring occupiers by reason of loss of light / overbearing impact / loss of privacy, contrary to the relevant Development Plan policies.''"

definition draft_householder_conditions :: "string option \<Rightarrow> string list" where
  "draft_householder_conditions proposal_text =
     (let t = lower (or_empty proposal_text) in
      [COND_PLANS]
      @ (if any_in [''materials'', ''match existing''] t then [COND_MATERIALS] else [])
      @ (if str_in ''privacy'' t \<or> str_in ''overlooking'' t then [COND_GLAZING] else []))"

definition harm_flags :: "string option \<Rightarrow> bool" where
  "harm_flags proposal_text =
     any_in [''loss of light'', ''overlooking'', ''overbearing'', ''unacceptable'']
            (lower (or_empty proposal_text))"

text \<open>
  The test of one precedent in the tilt loop: a decision containing \<open>refus\<close> whose
  reasons (\<open>reasons_text or officer_report_text or ""\<close>) mention an amenity-harm term.
\<close>

definition reasons_of :: "precedent \<Rightarrow> string" where
  "reasons_of c =
     (case pr_reasons_text c of
        Some s \<Rightarrow> if s \<noteq> [] then s else or_empty (pr_officer_report_text c)
      | None \<Rightarrow> or_empty (pr_officer_report_text c))"

definition refused_for_harm :: "precedent \<Rightarrow> bool" where
  "refused_for_harm c =
     (str_in ''refus'' (lower (or_empty (pr_decision c))) \<and>
      any_in [''loss of daylight'', ''overbearing'', ''privacy'', ''overlooking'']
             (lower (reasons_of c)))"

definition approved_with_conditions :: "precedent \<Rightarrow> bool" where
  "approved_with_conditions c =
     (str_in ''approved'' (lower (or_empty (pr_decision c))) \<and>
      any_in [''materials'', ''obscure'', ''glazing'', ''plans'']
             (lower (or_empty (pr_conditions_text c))))"

text \<open>The loop over \<open>results[:5]\<close>, threading \<open>(tilt_refuse, tilt_conditions)\<close>.\<close>

fun tilt_loop :: "precedent list \<Rightarrow> bool \<times> bool \<Rightarrow> bool \<times> bool" where
  "tilt_loop [] st = st"
| "tilt_loop (c # cs) (tr, tc) =
     tilt_loop cs (if refused_for_harm c then True else tr,
                   if approved_with_conditions c then True else tc)"

definition signals :: "real \<Rightarrow> real \<Rightarrow> string \<Rightarrow> pyval" where
  "signals policy_score case_score case_reason =
     PDict [(''policy_avg_score'', PFloat policy_score),
            (''case_avg_score'', PFloat case_score),
            (''case_reason'', PStr case_reason)]"

definition make_recommendation ::
  "float_ops \<Rightarrow> string option \<Rightarrow> block option \<Rightarrow> case_block option \<Rightarrow> bool \<Rightarrow> pydict"
  where
  "make_recommendation fp proposal_text policy_block cb require_precedent =
     (let issues = detect_issues proposal_text;
          (policy_ok, policy_score, policy_reason) = policy_strength fp policy_block;
          (case_ok, case_score, case_reason) = case_strength fp cb
      in
      if \<not> policy_ok then
        [(''decision'', PStr ''insufficient_evidence''),
         (''reason'', PStr (''policy_retrieval_weak:'' @ policy_reason)),
         (''issues'', PStrs issues),
         (''signals'', signals policy_score case_score case_reason),
         (''draft_conditions'', PStrs []),
         (''draft_refusal_reasons'', PStrs [])]
      else if require_precedent \<and> \<not> case_ok then
        [(''decision'', PStr ''insufficient_evidence''),
         (''reason'', PStr (''precedent_retrieval_weak:'' @ case_reason)),
         (''issues'', PStrs issues),
         (''signals'', signals policy_score case_score case_reason),
         (''draft_conditions'', PStrs []),
         (''draft_refusal_reasons'', PStrs [])]
      else
        (let hf = harm_flags proposal_text;
             (tilt_refuse, tilt_conditions) =
               (if case_ok
                then tilt_loop (take 5 (case cb of None \<Rightarrow> [] | Some c \<Rightarrow> cb_results c))
                               (False, True)
                else (False, True))
         in
         if tilt_refuse \<and> hf then
           [(''decision'', PStr ''refuse''),
            (''reason'', PNone),
            (''issues'', PStrs issues),
            (''signals'', signals policy_score case_score case_reason),
            (''draft_conditions'', PStrs []),
            (''draft_refusal_reasons'', PStrs [REFUSAL_AMENITY])]
         else
           (let conds = (if tilt_conditions then draft_householder_conditions proposal_text
                         else []);
                decision = (if conds \<noteq> [] then ''approve_with_conditions'' else ''approve'')
            in
            [(''decision'', PStr decision),
             (''reason'', PNone),
             (''issues'', PStrs issues),
             (''signals'', signals policy_score case_score case_reason),
             (''draft_conditions'', PStrs conds),
             (''draft_refusal_reasons'', PStrs [])])))"

section \<open>Decision engine, score-only: weighing\_balance.py\<close>

definition topic_from_text :: "string option \<Rightarrow> string" where
  "topic_from_text q =
     (let ql = lower (or_empty q) in
      if any_in [''rear extension'', ''single storey'', ''two storey'', ''loft'', ''dormer'',
                 ''outbuilding'', ''garage'', ''porch''] ql then ''householder''
      else if any_in [''listed'', ''conservation area'', ''heritage'', ''historic''] ql
           then ''heritage''
      else if any_in [''parking'', ''traffic'', ''highway'', ''visibility'', ''access'',
                      ''junction''] ql then ''highways''
      else if any_in [''flood'', ''surface water'', ''drainage'', ''suds''] ql then ''flood''
      else ''general'')"

definition ISSUE_AMENITY :: string where
  "ISSUE_AMENITY = ''Neighbour amenity (privacy/daylight/outlook)''"

definition ISSUE_DESIGN :: string where
  "ISSUE_DESIGN = ''Design/scale/materials/character''"

text \<open>
  The scores of the results, \<open>sum(scores) / max(len(scores), 1)\<close> and \<open>max(scores)\<close>.
\<close>

definition scores_of :: "evidence list \<Rightarrow> real list" where
  "scores_of results = map (\<lambda>r. score_or_zero (ev_score r)) results"

definition avg_score :: "float_ops \<Rightarrow> evidence list \<Rightarrow> real" where
  "avg_score fp results =
     fp_div fp (fp_sum fp (scores_of results)) (real (max (length (scores_of results)) 1))"

definition top_score :: "evidence list \<Rightarrow> real" where
  "top_score results =
     (case scores_of results of [] \<Rightarrow> 0 | x # xs \<Rightarrow> fold max xs x)"

definition balance_issues :: "string option \<Rightarrow> evidence list \<Rightarrow> string list" where
  "balance_issues proposal_text results =
     (let topic = topic_from_text proposal_text;
          text_blob = join [CHR 0x0A]
                        (map (\<lambda>r. lower (take 4000 (or_empty (ev_text r)))) results)
      in (if topic = ''householder''
          then (if any_in [''amenity'', ''privacy'', ''overlooking'', ''daylight'', ''sunlight'',
                           ''outlook''] text_blob then [ISSUE_AMENITY] else [])
               @ (if any_in [''design'', ''scale'', ''materials'', ''character''] text_blob
                  then [ISSUE_DESIGN] else [])
          else [])
         @ (if topic = ''heritage'' then [''Heritage significance/setting''] else [])
         @ (if topic = ''highways'' then [''Highway safety/parking/access''] else [])
         @ (if topic = ''flood'' then [''Flood risk/surface water drainage''] else []))"

text \<open>The decision rule of \<open>weigh_balance\<close>: the pair \<open>(decision, confidence)\<close>.\<close>

definition balance_rule :: "real \<Rightarrow> real \<Rightarrow> string \<times> real" where
  "balance_rule avg_s top_s =
     (if avg_s \<ge> 4.0 \<and> top_s \<ge> 4.5 then (''approve_with_conditions'', 0.70)
      else if avg_s < 2.5 then (''insufficient_evidence'', 0.25)
      else (''needs_officer_review'', 0.45))"

definition weigh_balance :: "float_ops \<Rightarrow> string option \<Rightarrow> block option \<Rightarrow> pydict" where
  "weigh_balance fp proposal_text policy_block =
     (let results = (case policy_block of None \<Rightarrow> [] | Some pb \<Rightarrow> b_results pb) in
      if results = [] then
        [(''decision'', PStr ''insufficient_evidence''),
         (''confidence'', PFloat 0.0),
         (''reasons_for'', PStrs []),
         (''reasons_against'', PStrs [''No policy evidence retrieved.'']),
         (''suggested_conditions'', PStrs []),
         (''issues'', PStrs [])]
      else
        (let issues = balance_issues proposal_text results;
             (decision, confidence) = balance_rule (avg_score fp results) (top_score results);
             reasons_for =
               (if decision = ''approve_with_conditions''
                then [''Policy evidence indicates the proposal can be acceptable subject to detailed design/amenity safeguards.'']
                     @ (if ISSUE_AMENITY \<in> set issues
                        then [''Key amenity considerations are addressed through assessment against amenity-focused policies.'']
                        else [])
                     @ (if ISSUE_DESIGN \<in> set issues
                        then [''Design/scale/materials can be controlled through conditions and adherence to approved plans.'']
                        else [])
                else []);
             reasons_against =
               (if decision = ''approve_with_conditions'' then []
                else if decision = ''needs_officer_review''
                then [''Policy evidence retrieved but requires officer judgement to weigh impacts and site context.'']
                     @ (if issues \<noteq> []
                        then [''Main issues flagged: '' @ join '', '' issues @ ''.'']
                        else [])
                else [''Retrieval quality appears weak for drawing a conclusion; expand documents / improve retrieval filtering.'']);
             suggested_conditions =
               (if decision = ''approve_with_conditions''
                then [''Works to be carried out in accordance with the approved plans.'',
                      ''External materials to match existing dwelling unless otherwise agreed in writing by the LPA.'']
                     @ (if ISSUE_AMENITY \<in> set issues
                        then [''No additional windows/openings facing neighbouring properties unless otherwise agreed in writing by the LPA.'']
                        else [])
                else [])
         in
         [(''decision'', PStr decision),
          (''confidence'', PFloat confidence),
          (''reasons_for'', PStrs reasons_for),
          (''reasons_against'', PStrs reasons_against),
          (''suggested_conditions'', PStrs suggested_conditions),
          (''issues'', PStrs issues)]))"

section \<open>Reranker and diversifier: report\_rerank.py\<close>

text \<open>
  In the reranker and the tuners float arithmetic is real arithmetic.
  The weights file is a JSON object with known keys; an absent key is \<open>None\<close>. The key
  \<open>topic_penalties\<close> is the one the reranker and the batch tuner use, the key
  \<open>topic_penalty\<close> the one the per-run tuner writes. JSON objects are association
  lists in insertion order.
\<close>

record weights =
  doc_diversity_target :: "int option"
  max_evidence_items :: "int option"
  c3_keyword_boost :: "real option"
  c3_keywords :: "string list option"
  irrelevance_penalty_per_hit :: "real option"
  min_score_floor :: "real option"
  doc_boost :: "(string \<times> real) list option"
  topic_penalties :: "(string \<times> real) list option"
  topic_penalty :: "(string \<times> real) list option"

text \<open>\<open>d.get(k, default)\<close> and \<open>d.setdefault(k, default)\<close> on one key.\<close>

definition get_or :: "'a option \<Rightarrow> 'a \<Rightarrow> 'a" where
  "get_or x d = (case x of None \<Rightarrow> d | Some v \<Rightarrow> v)"

definition setdefault :: "'a option \<Rightarrow> 'a \<Rightarrow> 'a option" where
  "setdefault x d = Some (get_or x d)"

definition load_weights :: "weights \<Rightarrow> weights" where
  "load_weights cfg =
     cfg\<lparr> doc_diversity_target := setdefault (doc_diversity_target cfg) 3,
          max_evidence_items := setdefault (max_evidence_items cfg) 10,
          c3_keyword_boost := setdefault (c3_keyword_boost cfg) 2.0,
          c3_keywords := setdefault (c3_keywords cfg) [],
          irrelevance_penalty_per_hit := setdefault (irrelevance_penalty_per_hit cfg) 0.7,
          min_score_floor := setdefault (min_score_floor cfg) 0.1,
          doc_boost := setdefault (doc_boost cfg) [],
          topic_penalties := setdefault (topic_penalties cfg) [] \<rparr>"

text \<open>The keyword loop of \<open>score_item\<close>: \<open>if kw and _lower(kw) in t: hits += 1\<close>.\<close>

fun count_hits :: "string list \<Rightarrow> string \<Rightarrow> nat \<Rightarrow> nat" where
  "count_hits [] t hits = hits"
| "count_hits (kw # kws) t hits =
     count_hits kws t (if kw \<noteq> [] \<and> str_in (lower kw) t then hits + 1 else hits)"

text \<open>
  The topic loop: \<open>if topic and _lower(topic) in t: penalty_hits += 1;
  score *= 1.0 / float(mult or 1.0)\<close>.
\<close>

fun penalty_loop :: "(string \<times> real) list \<Rightarrow> string \<Rightarrow> nat \<times> real \<Rightarrow> nat \<times> real" where
  "penalty_loop [] t st = st"
| "penalty_loop ((topic, mult) # tps) t (penalty_hits, score) =
     penalty_loop tps t
       (if topic \<noteq> [] \<and> str_in (lower topic) t
        then (penalty_hits + 1, score * (1 / (if mult = 0 then 1 else mult)))
        else (penalty_hits, score))"

definition score_item :: "string \<Rightarrow> real \<Rightarrow> string \<Rightarrow> weights \<Rightarrow> real" where
  "score_item txt base_score doc_key w =
     (let t = lower txt;
          score1 = base_score * get_or (map_of (get_or (doc_boost w) []) doc_key) 1.0;
          boost = get_or (c3_keyword_boost w) 1.0;
          hits = count_hits (get_or (c3_keywords w) []) t 0;
          score2 = (if hits \<noteq> 0
                    then score1 * (1.0 + (boost - 1.0) * min 1.0 (real hits / 3.0))
                    else score1);
          pen_per_hit = get_or (irrelevance_penalty_per_hit w) 0.7;
          (penalty_hits, score3) = penalty_loop (get_or (topic_penalties w) []) t (0, score2);
          score4 = (if penalty_hits \<noteq> 0 then score3 - real penalty_hits * pen_per_hit
                    else score3);
          floor_v = get_or (min_score_floor w) 0.1
      in if score4 < floor_v then floor_v else score4)"

text \<open>\<open>e.get("snippet") or e.get("text") or ""\<close>\<close>

definition item_text :: "evidence \<Rightarrow> string" where
  "item_text e = (if or_empty (ev_snippet e) \<noteq> [] then or_empty (ev_snippet e)
                  else or_empty (ev_text e))"

text \<open>\<open>e.get("doc_key") or ""\<close>: the empty string is the falsy key.\<close>

definition dkey :: "evidence \<Rightarrow> string" where
  "dkey e = or_empty (ev_doc_key e)"

definition attach_score :: "weights \<Rightarrow> evidence \<Rightarrow> evidence" where
  "attach_score w e =
     e\<lparr> ev_rerank_score :=
          Some (score_item (item_text e) (score_or_zero (ev_score e))
                           (dkey e) w) \<rparr>"

text \<open>
  The sort key \<open>float(x.get("_rerank_score", 0.0))\<close>; \<open>sort(reverse=True)\<close> is stable, so
  it is the stable ascending sort on the negated key.
\<close>

definition rerank_key :: "evidence \<Rightarrow> real" where
  "rerank_key x = get_or (ev_rerank_score x) 0"

definition nkey :: "evidence \<Rightarrow> real" where
  "nkey x = - rerank_key x"

definition sort_desc :: "evidence list \<Rightarrow> evidence list" where
  "sort_desc xs = sort_key nkey xs"

text \<open>Pass 1: the best item per unseen, truthy \<open>doc_key\<close> until the target is met.\<close>

fun pass1 :: "int \<Rightarrow> evidence list \<Rightarrow> evidence list \<Rightarrow> string list \<Rightarrow> evidence list" where
  "pass1 target_docs [] picked seen_docs = picked"
| "pass1 target_docs (e # es) picked seen_docs =
     (let dk = dkey e in
      if dk \<noteq> [] \<and> dk \<notin> set seen_docs
      then (if int (length (dk # seen_docs)) \<ge> target_docs then picked @ [e]
            else pass1 target_docs es (picked @ [e]) (dk # seen_docs))
      else pass1 target_docs es picked seen_docs)"

text \<open>Pass 2: fill by score, skipping items already picked, up to \<open>max_items\<close>.\<close>

fun pass2 :: "int \<Rightarrow> evidence list \<Rightarrow> evidence list \<Rightarrow> evidence list" where
  "pass2 max_items [] picked = picked"
| "pass2 max_items (e # es) picked =
     (if int (length picked) \<ge> max_items then picked
      else if e \<in> set picked then pass2 max_items es picked
      else pass2 max_items es (picked @ [e]))"

definition synth_citation :: "evidence \<Rightarrow> citation" where
  "synth_citation e =
     \<lparr> ct_authority = ev_authority e, ct_doc_key = ev_doc_key e,
       ct_doc_title = ev_doc_title e, ct_paragraph_ref = ev_paragraph_ref e,
       ct_page_start = ev_page_start e, ct_page_end = ev_page_end e,
       ct_source_path = ev_source_path e, ct_score = ev_rerank_score e \<rparr>"

text \<open>\<open>cit_map\<close>: a later citation with the same key replaces an earlier one.\<close>

definition cit_map ::
  "citation list \<Rightarrow> (string option \<times> string option) \<rightharpoonup> citation" where
  "cit_map citations = map_of (rev (map (\<lambda>c. ((ct_doc_key c, ct_paragraph_ref c), c)) citations))"

definition rebuild_citations :: "citation list \<Rightarrow> evidence list \<Rightarrow> citation list" where
  "rebuild_citations citations picked =
     map (\<lambda>e. case cit_map citations (ev_doc_key e, ev_paragraph_ref e) of
                 Some c \<Rightarrow> c
               | None \<Rightarrow> synth_citation e) picked"

text \<open>The evidence half of \<open>rerank_policy\<close>, and the whole function.\<close>

definition rerank_evidence :: "evidence list \<Rightarrow> weights \<Rightarrow> evidence list" where
  "rerank_evidence evidence wts =
     (let w = load_weights wts;
          scored = sort_desc (map (attach_score w) evidence);
          target_docs = get_or (doc_diversity_target w) 3;
          max_items = get_or (max_evidence_items w) 10
      in pass2 max_items scored (pass1 target_docs scored [] []))"

definition rerank_policy ::
  "citation list \<Rightarrow> evidence list \<Rightarrow> weights \<Rightarrow> citation list \<times> evidence list" where
  "rerank_policy citations evidence wts =
     (let picked = rerank_evidence evidence wts
      in (rebuild_citations citations picked, picked))"

section \<open>Weight tuners: auto\_tune\_weights.py and update\_weights\_from\_feedback.py\<close>

definition clamp :: "real \<Rightarrow> real \<Rightarrow> real \<Rightarrow> real" where
  "clamp x lo hi = max lo (min hi x)"

text \<open>\<open>d[k] = v\<close> on a JSON object: in place when the key exists, appended otherwise.\<close>

definition bump :: "string \<Rightarrow> real \<Rightarrow> (string \<times> real) list \<Rightarrow> (string \<times> real) list" where
  "bump doc delta db =
     AList.update doc (clamp (get_or (map_of db doc) 1.0 + delta) 0.80 1.50) db"

definition lower_penalty :: "string \<Rightarrow> (string \<times> real) list \<Rightarrow> (string \<times> real) list" where
  "lower_penalty k tp =
     AList.update k (clamp (get_or (map_of tp k) 0.90 - 0.03) 0.50 1.00) tp"

definition WATCH_LIST :: "string list" where
  "WATCH_LIST = [''leisure'', ''tourism'', ''nightclub'', ''employment land'',
                 ''retail hierarchy'']"

text \<open>
  The per-run tuner on the text of the quality report and the loaded weights (\<open>{}\<close>
  when the file is missing); the result is what it writes back.
\<close>

definition empty_weights :: weights where
  "empty_weights =
     \<lparr> doc_diversity_target = None, max_evidence_items = None, c3_keyword_boost = None,
       c3_keywords = None, irrelevance_penalty_per_hit = None, min_score_floor = None,
       doc_boost = None, topic_penalties = None, topic_penalty = None \<rparr>"

definition auto_tune_weights :: "string \<Rightarrow> weights \<Rightarrow> weights" where
  "auto_tune_weights t w =
     (let tlow = lower t;
          low_div = str_in ''low document diversity'' tlow;
          irrelevant = (str_in ''irrelevance signals detected'' tlow
                        \<or> str_in ''some evidence looks unrelated'' tlow);
          db0 = get_or (doc_boost w) [];
          tp0 = get_or (topic_penalty w) [];
          db1 = (if low_div
                 then bump ''csucp_2015'' (- 0.02) (bump ''dap_2020'' 0.02
                        (bump ''nppf_2024'' 0.03 db0))
                 else db0);
          tp1 = (if irrelevant then fold lower_penalty WATCH_LIST tp0 else tp0)
      in w\<lparr> doc_boost := Some db1, topic_penalty := Some tp1 \<rparr>)"

text \<open>\<open>lines[-min(10, len(lines)):]\<close>\<close>

definition last_lines :: "string list \<Rightarrow> string list" where
  "last_lines lines = drop (length lines - min 10 (length lines)) lines"

definition raise_penalty :: "string \<Rightarrow> (string \<times> real) list \<Rightarrow> (string \<times> real) list" where
  "raise_penalty k tp = AList.update k (min (get_or (map_of tp k) 2.0 + 0.2) 4.0) tp"

text \<open>
  The batch tuner on the lines of the feedback file, \<open>min_records\<close> and the loaded
  weights; the result is the content of the weights file afterwards (unchanged when
  nothing is written).
\<close>

definition update_weights_from_feedback :: "string list \<Rightarrow> int \<Rightarrow> weights \<Rightarrow> weights" where
  "update_weights_from_feedback lines min_records wts =
     (if int (length lines) < min_records then wts
      else
        (let txt = lower (join [CHR 0x0A] (last_lines lines));
             w1 = (if str_in ''low document diversity'' txt
                   then (let cur = get_or (doc_diversity_target wts) 2 in
                         if cur < 3 then wts\<lparr> doc_diversity_target := Some (cur + 1) \<rparr>
                         else wts)
                   else wts);
             w2 = (if str_in ''irrelevance'' txt \<or> str_in ''unrelated'' txt
                      \<or> str_in ''leisure/tourism'' txt
                   then w1\<lparr> irrelevance_penalty_per_hit :=
                               Some (min (get_or (irrelevance_penalty_per_hit w1) 0.6 + 0.1) 1.5),
                            topic_penalties :=
                               Some (fold raise_penalty [''leisure'', ''tourism'', ''nightlife'']
                                       (get_or (topic_penalties w1) [])) \<rparr>
                   else w1)
         in w2))"

text \<open>
  One tuner invocation on the weights store (\<open>None\<close>: the file does not exist). The
  per-run tuner creates the file; the batch tuner exits when the weights file is
  missing and leaves it alone when the feedback file is missing.
\<close>

datatype invocation = PerRun string | Batch "string list option" int

fun tuner_step :: "invocation \<Rightarrow> weights option \<Rightarrow> weights option" where
  "tuner_step (PerRun t) store = Some (auto_tune_weights t (get_or store empty_weights))"
| "tuner_step (Batch fb min_records) None = None"
| "tuner_step (Batch None min_records) (Some w) = Some w"
| "tuner_step (Batch (Some lines) min_records) (Some w) =
     Some (update_weights_from_feedback lines min_records w)"

definition run_tuners :: "invocation list \<Rightarrow> weights option \<Rightarrow> weights option" where
  "run_tuners invs store = fold tuner_step invs store"

text \<open>The declared bounds of a weights configuration.\<close>

definition in_range :: "real \<Rightarrow> real \<Rightarrow> real \<Rightarrow> bool" where
  "in_range lo hi v = (lo \<le> v \<and> v \<le> hi)"

definition at_most :: "real \<Rightarrow> real \<Rightarrow> bool" where
  "at_most hi v = (v \<le> hi)"

definition values_all :: "(real \<Rightarrow> bool) \<Rightarrow> (string \<times> real) list \<Rightarrow> bool" where
  "values_all P al = list_all (\<lambda>(k, v). P v) al"

definition in_bounds :: "weights \<Rightarrow> bool" where
  "in_bounds w =
     (values_all (in_range 0.80 1.50) (get_or (doc_boost w) [])
      \<and> values_all (in_range 0.50 1.00) (get_or (topic_penalty w) [])
      \<and> values_all (at_most 4.0) (get_or (topic_penalties w) [])
      \<and> (case irrelevance_penalty_per_hit w of None \<Rightarrow> True | Some p \<Rightarrow> p \<le> 1.5)
      \<and> (case doc_diversity_target w of None \<Rightarrow> True | Some d \<Rightarrow> d \<le> 3))"

definition store_in_bounds :: "weights option \<Rightarrow> bool" where
  "store_in_bounds store = (case store of None \<Rightarrow> True | Some w \<Rightarrow> in_bounds w)"

section \<open>Auxiliary functions for the proofs\<close>

text \<open>
  \<open>firsts\<close> lists the first item of every truthy, unseen \<open>doc_key\<close> in list order: pass 1
  without its early exit. \<open>fresh\<close> lists the items not yet picked, each once: pass 2
  without its length test. \<open>merge_key\<close> merges two lists sorted on a key, the left one
  first on ties. \<open>select\<close> is the two passes on an already sorted list.
\<close>

fun firsts :: "evidence list \<Rightarrow> string list \<Rightarrow> evidence list" where
  "firsts [] seen = []"
| "firsts (e # es) seen =
     (if dkey e \<noteq> [] \<and> dkey e \<notin> set seen then e # firsts es (dkey e # seen)
      else firsts es seen)"

fun fresh :: "evidence list \<Rightarrow> evidence list \<Rightarrow> evidence list" where
  "fresh [] acc = []"
| "fresh (e # es) acc =
     (if e \<in> set acc then fresh es acc else e # fresh es (acc @ [e]))"

fun merge_key :: "('a \<Rightarrow> real) \<Rightarrow> 'a list \<Rightarrow> 'a list \<Rightarrow> 'a list" where
  "merge_key f [] ys = ys"
| "merge_key f (x # xs) [] = x # xs"
| "merge_key f (x # xs) (y # ys) =
     (if f x \<le> f y then x # merge_key f xs (y # ys) else y # merge_key f (x # xs) ys)"

definition select :: "int \<Rightarrow> int \<Rightarrow> evidence list \<Rightarrow> evidence list" where
  "select t m S = pass2 m S (pass1 t S [] [])"


text \<open>\<open>w.get(m, {}).get(k)\<close> on a weights table.\<close>

definition lookup :: "(string \<times> real) list option \<Rightarrow> string \<Rightarrow> real option" where
  "lookup m k = map_of (get_or m []) k"

text \<open>
  The keywords and topics that \<open>score_item\<close> counts: non-empty and contained in the
  lower-cased text.
\<close>

definition matching_keywords :: "string list \<Rightarrow> string \<Rightarrow> string list" where
  "matching_keywords kws txt = filter (\<lambda>kw. kw \<noteq> [] \<and> str_in (lower kw) (lower txt)) kws"

definition matching_topics :: "(string \<times> real) list \<Rightarrow> string \<Rightarrow> (string \<times> real) list" where
  "matching_topics tps txt =
     filter (\<lambda>(topic, mult). topic \<noteq> [] \<and> str_in (lower topic) (lower txt)) tps"

text \<open>
  The score as the specification words it: every keyword and every topic key that
  occurs in the text counts, the empty string included, and the score is multiplied by
  \<open>1 / penalty_multiplier\<close> as it stands.
\<close>

definition claimed_score :: "string \<Rightarrow> real \<Rightarrow> string \<Rightarrow> weights \<Rightarrow> real" where
  "claimed_score txt raw_score doc_key w =
     (let hits = length (filter (\<lambda>kw. str_in (lower kw) (lower txt)) (get_or (c3_keywords w) []));
          matching = filter (\<lambda>(topic, mult). str_in (lower topic) (lower txt))
                            (get_or (topic_penalties w) [])
      in max (get_or (min_score_floor w) 0.1)
           (raw_score * get_or (map_of (get_or (doc_boost w) []) doc_key) 1.0
              * (1 + (get_or (c3_keyword_boost w) 1.0 - 1) * min 1 (real hits / 3))
              * prod_list (map (\<lambda>(topic, mult). 1 / mult) matching)
            - real (length matching) * get_or (irrelevance_penalty_per_hit w) 0.7))"

section \<open>Concrete inputs\<close>

definition mk_ev :: "string \<Rightarrow> real \<Rightarrow> evidence" where
  "mk_ev k s =
     \<lparr> ev_authority = None, ev_doc_key = Some k, ev_doc_title = None,
       ev_paragraph_ref = None, ev_page_start = None, ev_page_end = None,
       ev_source_path = None, ev_score = Some s, ev_text = None, ev_snippet = None,
       ev_rerank_score = None \<rparr>"

definition mk_block :: "bool \<Rightarrow> evidence list \<Rightarrow> block" where
  "mk_block ok results =
     \<lparr> b_ok = ok, b_reason = None, b_results = results, b_evidence = [],
       b_citations = [] \<rparr>"

definition refused_precedent :: "real \<Rightarrow> precedent" where
  "refused_precedent s =
     \<lparr> pr_decision = Some ''Refused'',
       pr_reasons_text = Some ''Unacceptable overlooking of the neighbouring garden'',
       pr_officer_report_text = None, pr_conditions_text = None, pr_score = Some s \<rparr>"

definition mk_case_block :: "precedent list \<Rightarrow> case_block" where
  "mk_case_block results = \<lparr> cb_ok = True, cb_reason = None, cb_results = results \<rparr>"

definition w_empty_kw :: weights where
  "w_empty_kw = empty_weights\<lparr> c3_keyword_boost := Some 2, c3_keywords := Some [''''] \<rparr>"

definition w_at_bounds :: weights where
  "w_at_bounds =
     empty_weights\<lparr> doc_diversity_target := Some 3,
                    irrelevance_penalty_per_hit := Some 1.5,
                    doc_boost := Some [(''nppf_2024'', 1.5), (''dap_2020'', 1.5),
                                       (''csucp_2015'', 0.8)],
                    topic_penalties := Some [(''leisure'', 4), (''tourism'', 4),
                                             (''nightlife'', 4)],
                    topic_penalty := Some [(''leisure'', 0.5), (''tourism'', 0.5),
                                           (''nightclub'', 0.5), (''employment land'', 0.5),
                                           (''retail hierarchy'', 0.5)] \<rparr>"

section \<open>Lemmas: the two passes of the reranker\<close>

lemma pass1_firsts:
  "pass1 t es picked seen = picked @ take (nat (max 1 (t - int (length seen)))) (firsts es seen)"
proof (induction es arbitrary: picked seen)
  case Nil
  then show ?case by simp
next
  case (Cons e es)
  show ?case
  proof (cases "dkey e \<noteq> [] \<and> dkey e \<notin> set seen")
    case False
    then show ?thesis using Cons.IH by (auto simp: Let_def)
  next
    case True
    show ?thesis
    proof (cases "int (length (dkey e # seen)) \<ge> t")
      case stop: True
      then have "nat (max 1 (t - int (length seen))) = 1" by simp
      then show ?thesis using True stop by (simp add: Let_def)
    next
      case go: False
      have n: "nat (max 1 (t - int (length seen))) = Suc (nat (max 1 (t - int (length (dkey e # seen)))))"
        using go by simp
      have "pass1 t (e # es) picked seen = pass1 t es (picked @ [e]) (dkey e # seen)"
        using True go by (simp add: Let_def)
      also have "\<dots> = (picked @ [e]) @ take (nat (max 1 (t - int (length (dkey e # seen))))) (firsts es (dkey e # seen))"
        by (rule Cons.IH)
      also have "\<dots> = picked @ take (nat (max 1 (t - int (length seen)))) (firsts (e # es) seen)"
        unfolding n using True by simp
      finally show ?thesis .
    qed
  qed
qed

lemma pass2_fresh:
  "pass2 m es picked = picked @ take (nat (m - int (length picked))) (fresh es picked)"
proof (induction es arbitrary: picked)
  case Nil
  then show ?case by simp
next
  case (Cons e es)
  show ?case
  proof (cases "int (length picked) \<ge> m")
    case True
    then show ?thesis by simp
  next
    case False
    then have n: "nat (m - int (length picked)) = Suc (nat (m - int (length (picked @ [e]))))"
      by simp
    show ?thesis using False Cons.IH[of picked] Cons.IH[of "picked @ [e]"]
      by (simp add: n del: length_append)
  qed
qed

lemma set_firsts: "set (firsts es seen) \<subseteq> set es"
  by (induction es arbitrary: seen) auto

lemma firsts_keys: "x \<in> set (firsts es seen) \<Longrightarrow> dkey x \<noteq> [] \<and> dkey x \<notin> set seen"
proof (induction es arbitrary: seen)
  case Nil
  then show ?case by simp
next
  case (Cons e es)
  show ?case
  proof (cases "dkey e \<noteq> [] \<and> dkey e \<notin> set seen")
    case True
    then have "x = e \<or> x \<in> set (firsts es (dkey e # seen))" using Cons.prems by auto
    then show ?thesis using True Cons.IH[of "dkey e # seen"] by auto
  next
    case False
    then show ?thesis using Cons by auto
  qed
qed

lemma distinct_firsts: "distinct (map dkey (firsts es seen))"
  by (induction es arbitrary: seen) (auto dest: firsts_keys)

lemma sorted_firsts: "sorted (map f es) \<Longrightarrow> sorted (map f (firsts es seen))"
  using set_firsts by (induction es arbitrary: seen) (auto, blast)

lemma set_fresh: "set (fresh es acc) = set es - set acc"
  by (induction es arbitrary: acc) auto

lemma distinct_fresh: "distinct (fresh es acc)"
  by (induction es arbitrary: acc) (auto simp: set_fresh)

lemma sorted_fresh: "sorted (map f es) \<Longrightarrow> sorted (map f (fresh es acc))"
  by (induction es arbitrary: acc) (auto simp: set_fresh)

lemma fresh_filter: "distinct es \<Longrightarrow> fresh es acc = filter (\<lambda>e. e \<notin> set acc) es"
proof (induction es arbitrary: acc)
  case Nil
  then show ?case by simp
next
  case (Cons e es)
  have "filter (\<lambda>x. x \<notin> set (acc @ [e])) es = filter (\<lambda>x. x \<notin> set acc) es"
    using Cons.prems by (intro filter_cong) auto
  then show ?case using Cons by simp
qed

lemma insort_merge:
  "sorted (map f (d # ds)) \<Longrightarrow> insort_key f d (merge_key f ds fs) = merge_key f (d # ds) fs"
proof (induction fs)
  case Nil
  then show ?case by (cases ds) (auto simp: insort_is_Cons)
next
  case (Cons y ys)
  then show ?case by (cases ds) auto
qed

lemma sort_append_merge:
  "sorted (map f ds) \<Longrightarrow> sorted (map f fs) \<Longrightarrow> sort_key f (ds @ fs) = merge_key f ds fs"
proof (induction ds)
  case Nil
  then show ?case by (simp add: sort_key_id_if_sorted)
next
  case (Cons d ds)
  then show ?case by (simp add: insort_merge)
qed

lemma firsts_none: "\<forall>f\<in>set fs. dkey f = [] \<or> dkey f \<in> set seen \<Longrightarrow> firsts fs seen = []"
  by (induction fs arbitrary: seen) auto

lemma firsts_id:
  "distinct (map dkey ds) \<Longrightarrow> \<forall>d\<in>set ds. dkey d \<noteq> [] \<and> dkey d \<notin> set seen \<Longrightarrow> firsts ds seen = ds"
proof (induction ds arbitrary: seen)
  case Nil
  then show ?case by simp
next
  case (Cons d ds)
  have nd: "dkey d \<notin> dkey ` set ds" and dd: "distinct (map dkey ds)"
    using Cons.prems by auto
  have "\<forall>x\<in>set ds. dkey x \<noteq> dkey d"
    using nd by (metis imageI)
  then have "\<forall>x\<in>set ds. dkey x \<noteq> [] \<and> dkey x \<notin> set (dkey d # seen)"
    using Cons.prems by simp
  then have "firsts ds (dkey d # seen) = ds"
    using dd by (intro Cons.IH)
  then show ?case using Cons.prems by simp
qed


text \<open>On a sorted list the first item of a key precedes, and so is not below, any other item of that key.\<close>

lemma firsts_cover:
  "sorted (map f xs) \<Longrightarrow> x \<in> set xs \<Longrightarrow> dkey x \<noteq> [] \<Longrightarrow> dkey x \<notin> set seen
   \<Longrightarrow> \<exists>d\<in>set (firsts xs seen). dkey d = dkey x \<and> f d \<le> f x"
proof (induction xs arbitrary: seen)
  case Nil
  then show ?case by simp
next
  case (Cons e es)
  have srt: "sorted (map f es)" and le: "\<forall>y\<in>set es. f e \<le> f y"
    using Cons.prems(1) by auto
  show ?case
  proof (cases "dkey e \<noteq> [] \<and> dkey e \<notin> set seen")
    case picked: True
    show ?thesis
    proof (cases "dkey e = dkey x")
      case True
      have "f e \<le> f x" using Cons.prems(2) le by auto
      then show ?thesis using picked True by auto
    next
      case False
      then have xin: "x \<in> set es" and ns: "dkey x \<notin> set (dkey e # seen)"
        using Cons.prems by auto
      from Cons.IH[OF srt xin Cons.prems(3) ns] show ?thesis using picked by auto
    qed
  next
    case skipped: False
    then have xin: "x \<in> set es" using Cons.prems by auto
    from Cons.IH[OF srt xin Cons.prems(3) Cons.prems(4)] show ?thesis using skipped by auto
  qed
qed

lemma firsts_merge:
  "sorted (map f ds) \<Longrightarrow> distinct (map dkey ds)
   \<Longrightarrow> \<forall>d\<in>set ds. dkey d \<noteq> [] \<and> dkey d \<notin> set seen
   \<Longrightarrow> \<forall>x\<in>set fs. dkey x = [] \<or> dkey x \<in> set seen
          \<or> (\<exists>d\<in>set ds. dkey d = dkey x \<and> f d \<le> f x)
          \<or> (flag \<and> (\<forall>d\<in>set ds. f d \<le> f x))
   \<Longrightarrow> \<exists>R. firsts (merge_key f ds fs) seen = ds @ R \<and> (\<not> flag \<longrightarrow> R = [])"
proof (induction f ds fs arbitrary: seen rule: merge_key.induct)
  case (1 f ys)
  show ?case
  proof (cases flag)
    case True
    then show ?thesis by simp
  next
    case False
    then have "\<forall>x\<in>set ys. dkey x = [] \<or> dkey x \<in> set seen" using 1 by auto
    then show ?thesis by (simp add: firsts_none)
  qed
next
  case (2 f x xs)
  have "firsts (x # xs) seen = x # xs"
    using 2 by (intro firsts_id) auto
  then show ?case by simp
next
  case (3 f d ds y ys)
  have srt: "sorted (map f ds)" and le: "\<forall>z\<in>set ds. f d \<le> f z"
    using "3.prems"(1) by auto
  have dd: "distinct (map dkey ds)" and nd: "dkey d \<notin> dkey ` set ds"
    using "3.prems"(2) by auto
  show ?case
  proof (cases "f d \<le> f y")
    case True
    have k1: "\<forall>z\<in>set ds. dkey z \<noteq> [] \<and> dkey z \<notin> set (dkey d # seen)"
      using "3.prems"(3) nd by (metis imageI list.set_intros(2) set_ConsD)
    have k2: "\<forall>x\<in>set (y # ys). dkey x = [] \<or> dkey x \<in> set (dkey d # seen)
          \<or> (\<exists>z\<in>set ds. dkey z = dkey x \<and> f z \<le> f x)
          \<or> (flag \<and> (\<forall>z\<in>set ds. f z \<le> f x))"
    proof
      fix x assume "x \<in> set (y # ys)"
      with "3.prems"(4) have "dkey x = [] \<or> dkey x \<in> set seen
          \<or> (\<exists>z\<in>set (d # ds). dkey z = dkey x \<and> f z \<le> f x)
          \<or> (flag \<and> (\<forall>z\<in>set (d # ds). f z \<le> f x))" by blast
      then show "dkey x = [] \<or> dkey x \<in> set (dkey d # seen)
          \<or> (\<exists>z\<in>set ds. dkey z = dkey x \<and> f z \<le> f x)
          \<or> (flag \<and> (\<forall>z\<in>set ds. f z \<le> f x))" by auto
    qed
    from "3.IH"(1)[OF True srt dd k1 k2]
    obtain R where "firsts (merge_key f ds (y # ys)) (dkey d # seen) = ds @ R" "\<not> flag \<longrightarrow> R = []"
      by blast
    then show ?thesis using True "3.prems"(3) by simp
  next
    case False
    have "dkey y = [] \<or> dkey y \<in> set seen"
    proof -
      from "3.prems"(4) have "dkey y = [] \<or> dkey y \<in> set seen
          \<or> (\<exists>z\<in>set (d # ds). dkey z = dkey y \<and> f z \<le> f y)
          \<or> (flag \<and> (\<forall>z\<in>set (d # ds). f z \<le> f y))" by simp
      moreover have "\<not> (\<exists>z\<in>set (d # ds). f z \<le> f y)"
        using False le by auto
      ultimately show ?thesis by auto
    qed
    moreover have k2: "\<forall>x\<in>set ys. dkey x = [] \<or> dkey x \<in> set seen
          \<or> (\<exists>z\<in>set (d # ds). dkey z = dkey x \<and> f z \<le> f x)
          \<or> (flag \<and> (\<forall>z\<in>set (d # ds). f z \<le> f x))"
      using "3.prems"(4) by simp
    from "3.IH"(2)[OF False "3.prems"(1) "3.prems"(2) "3.prems"(3) k2]
    obtain R where "firsts (merge_key f (d # ds) ys) seen = (d # ds) @ R" "\<not> flag \<longrightarrow> R = []"
      by blast
    ultimately show ?thesis using False by auto
  qed
qed


lemma select_char:
  "select t m S = take (nat (max 1 t)) (firsts S [])
       @ take (nat (m - int (length (take (nat (max 1 t)) (firsts S []))))) (fresh S (take (nat (max 1 t)) (firsts S [])))"
  by (simp add: select_def pass1_firsts pass2_fresh)

lemma select_fix:
  assumes srt: "sorted (map nkey S)"
  shows "select t m (sort_key nkey (select t m S)) = select t m S"
proof -
  define n where "n = nat (max 1 t)"
  define Fs where "Fs = firsts S []"
  define D where "D = take n Fs"
  define F where "F = take (nat (m - int (length D))) (fresh S D)"
  have P: "select t m S = D @ F"
    by (simp add: select_char n_def Fs_def D_def F_def)
  have sFs: "sorted (map nkey Fs)" unfolding Fs_def by (rule sorted_firsts[OF srt])
  have sD: "sorted (map nkey D)"
    unfolding D_def take_map[symmetric] using sFs by (rule sorted_wrt_take)
  have sF: "sorted (map nkey F)"
    unfolding F_def take_map[symmetric] using sorted_fresh[OF srt] by (rule sorted_wrt_take)
  have dD: "distinct (map dkey D)"
    unfolding D_def take_map[symmetric] Fs_def using distinct_firsts by (rule distinct_take)
  have kD: "\<forall>d\<in>set D. dkey d \<noteq> [] \<and> dkey d \<notin> set []"
    unfolding D_def Fs_def using firsts_keys by (auto dest: in_set_takeD)
  have setF: "set F \<subseteq> set S - set D"
    unfolding F_def using set_fresh[of S D] by (auto dest: in_set_takeD)
  have distF: "distinct F" unfolding F_def using distinct_fresh by (rule distinct_take)
  have distD: "distinct D" using dD by (simp add: distinct_map)
  have distP: "distinct (D @ F)" using distD distF setF by auto
  have merge: "sort_key nkey (D @ F) = merge_key nkey D F"
    by (rule sort_append_merge[OF sD sF])
  have A2: "\<forall>x\<in>set F. dkey x = [] \<or> dkey x \<in> set []
          \<or> (\<exists>d\<in>set D. dkey d = dkey x \<and> nkey d \<le> nkey x)
          \<or> (length D = n \<and> (\<forall>d\<in>set D. nkey d \<le> nkey x))"
  proof
    fix x assume xF: "x \<in> set F"
    then have xS: "x \<in> set S" using setF by auto
    show "dkey x = [] \<or> dkey x \<in> set []
          \<or> (\<exists>d\<in>set D. dkey d = dkey x \<and> nkey d \<le> nkey x)
          \<or> (length D = n \<and> (\<forall>d\<in>set D. nkey d \<le> nkey x))"
    proof (cases "dkey x = []")
      case True
      then show ?thesis by simp
    next
      case False
      from firsts_cover[OF srt xS False, of "[]"]
      obtain d where d: "d \<in> set Fs" "dkey d = dkey x" "nkey d \<le> nkey x"
        unfolding Fs_def by auto
      have "Fs = D @ drop n Fs" unfolding D_def by simp
      then have "d \<in> set D \<or> d \<in> set (drop n Fs)"
        using d(1) by (metis Un_iff set_append)
      then show ?thesis
      proof
        assume "d \<in> set D"
        then show ?thesis using d by auto
      next
        assume dd: "d \<in> set (drop n Fs)"
        then have "drop n Fs \<noteq> []" by auto
        then have len: "length D = n" unfolding D_def by simp
        have "sorted (map nkey (D @ drop n Fs))"
          using sFs unfolding D_def by simp
        then have "\<forall>a\<in>set D. nkey a \<le> nkey d"
          using dd by (auto simp: sorted_append)
        then have "\<forall>a\<in>set D. nkey a \<le> nkey x" using d(3) by auto
        then show ?thesis using len by simp
      qed
    qed
  qed
  from firsts_merge[OF sD dD kD A2]
  obtain R where R: "firsts (merge_key nkey D F) [] = D @ R" "\<not> length D = n \<longrightarrow> R = []"
    by blast
  have lenD: "length D \<le> n" unfolding D_def by simp
  have tk: "take n (firsts (merge_key nkey D F) []) = D"
  proof (cases "length D = n")
    case True
    then show ?thesis using R(1) by simp
  next
    case False
    then show ?thesis using R lenD by simp
  qed
  have p1: "pass1 t (merge_key nkey D F) [] [] = D"
    using tk by (simp add: pass1_firsts n_def)
  have fr: "fresh (sort_key nkey (D @ F)) D = F"
  proof -
    have "fresh (sort_key nkey (D @ F)) D = filter (\<lambda>e. e \<notin> set D) (sort_key nkey (D @ F))"
      using distP by (intro fresh_filter) simp
    also have "\<dots> = sort_key nkey (filter (\<lambda>e. e \<notin> set D) (D @ F))"
      by (rule filter_sort)
    also have "filter (\<lambda>e. e \<notin> set D) (D @ F) = F"
      using setF by (auto simp: filter_empty_conv filter_id_conv)
    also have "sort_key nkey F = F" using sF by (rule sort_key_id_if_sorted)
    finally show ?thesis .
  qed
  have tF: "take (nat (m - int (length D))) F = F"
    unfolding F_def by simp
  have "select t m (sort_key nkey (D @ F)) = pass2 m (sort_key nkey (D @ F)) D"
    unfolding select_def using p1 merge by simp
  also have "\<dots> = D @ take (nat (m - int (length D))) (fresh (sort_key nkey (D @ F)) D)"
    by (rule pass2_fresh)
  also have "\<dots> = D @ F" unfolding fr tF ..
  finally show ?thesis unfolding P .
qed


lemma rerank_select:
  "rerank_evidence ev wts =
     select (get_or (doc_diversity_target wts) 3) (get_or (max_evidence_items wts) 10)
            (sort_desc (map (attach_score (load_weights wts)) ev))"
  by (simp add: rerank_evidence_def select_def Let_def load_weights_def setdefault_def get_or_def)

lemma sorted_sort_desc: "sorted (map nkey (sort_desc xs))"
  by (simp add: sort_desc_def)

lemma set_select: "set (select t m S) \<subseteq> set S"
proof -
  have "set (take (nat (max 1 t)) (firsts S [])) \<subseteq> set S"
    using set_firsts[of S "[]"] by (auto dest: in_set_takeD)
  moreover have "set (take (nat (m - int (length (take (nat (max 1 t)) (firsts S []))))) (fresh S (take (nat (max 1 t)) (firsts S [])))) \<subseteq> set S"
    using set_fresh by (auto dest!: in_set_takeD)
  ultimately show ?thesis unfolding select_char by simp
qed

lemma attach_idem: "attach_score w (attach_score w e) = attach_score w e"
  by (simp add: attach_score_def item_text_def dkey_def)


lemma attach_fixed:
  assumes "set P \<subseteq> set (sort_desc (map (attach_score w) ev))"
  shows "map (attach_score w) P = P"
proof -
  have "\<forall>x\<in>set P. attach_score w x = x"
    using assms by (auto simp: sort_desc_def attach_idem)
  then show ?thesis by (simp add: map_idI)
qed



section \<open>Lemmas: the loops of the scorer\<close>

lemma count_hits_filter:
  "count_hits kws (lower txt) h = h + length (matching_keywords kws txt)"
  by (induction kws arbitrary: h) (auto simp: matching_keywords_def)

lemma penalty_loop_filter:
  "penalty_loop tps (lower txt) (n, s) =
     (n + length (matching_topics tps txt),
      s * prod_list (map (\<lambda>(topic, mult). 1 / (if mult = 0 then 1 else mult)) (matching_topics tps txt)))"
proof (induction tps arbitrary: n s)
  case Nil
  then show ?case by (simp add: matching_topics_def)
next
  case (Cons p tps)
  obtain topic mult where p: "p = (topic, mult)" by (cases p)
  show ?case
  proof (cases "topic \<noteq> [] \<and> str_in (lower topic) (lower txt)")
    case True
    then have m: "matching_topics (p # tps) txt = p # matching_topics tps txt"
      by (simp add: matching_topics_def p)
    show ?thesis unfolding m using True Cons.IH[of "n + 1" "s * (1 / (if mult = 0 then 1 else mult))"]
      by (simp add: p)
  next
    case False
    then have m: "matching_topics (p # tps) txt = matching_topics tps txt"
      by (auto simp add: matching_topics_def p)
    show ?thesis unfolding m using False Cons.IH[of n s]
      by (auto simp add: p)
  qed
qed

section \<open>Lemmas: the tuners keep the bounds\<close>

lemma get_or_Some: "get_or (Some x) d = x"
  by (simp add: get_or_def)

lemma values_all_update:
  "values_all P al \<Longrightarrow> P v \<Longrightarrow> values_all P (AList.update k v al)"
  unfolding values_all_def by (induction al) auto

lemma clamp_within: "lo \<le> hi \<Longrightarrow> in_range lo hi (clamp x lo hi)"
  by (simp add: clamp_def in_range_def)

lemma bump_bounds:
  "values_all (in_range 0.80 1.50) db \<Longrightarrow> values_all (in_range 0.80 1.50) (bump doc delta db)"
  unfolding bump_def by (rule values_all_update, assumption, rule clamp_within) simp

lemma lower_penalty_bounds:
  "values_all (in_range 0.50 1.00) tp \<Longrightarrow> values_all (in_range 0.50 1.00) (lower_penalty k tp)"
  unfolding lower_penalty_def by (rule values_all_update, assumption, rule clamp_within) simp

lemma fold_lower_penalty_bounds:
  "values_all (in_range 0.50 1.00) tp \<Longrightarrow> values_all (in_range 0.50 1.00) (fold lower_penalty ks tp)"
proof (induction ks arbitrary: tp)
  case Nil
  then show ?case by simp
next
  case (Cons k ks)
  have "values_all (in_range 0.50 1.00) (fold lower_penalty ks (lower_penalty k tp))"
    by (rule Cons.IH, rule lower_penalty_bounds, rule Cons.prems)
  then show ?case by simp
qed

lemma raise_penalty_bounds:
  "values_all (at_most 4.0) tp \<Longrightarrow> values_all (at_most 4.0) (raise_penalty k tp)"
  unfolding raise_penalty_def by (rule values_all_update, assumption) (simp add: at_most_def)

lemma fold_raise_penalty_bounds:
  "values_all (at_most 4.0) tp \<Longrightarrow> values_all (at_most 4.0) (fold raise_penalty ks tp)"
proof (induction ks arbitrary: tp)
  case Nil
  then show ?case by simp
next
  case (Cons k ks)
  have "values_all (at_most 4.0) (fold raise_penalty ks (raise_penalty k tp))"
    by (rule Cons.IH, rule raise_penalty_bounds, rule Cons.prems)
  then show ?case by simp
qed

lemma values_all_Nil: "values_all P []"
  by (simp add: values_all_def)

lemma auto_tune_in_bounds:
  assumes "in_bounds w"
  shows "in_bounds (auto_tune_weights t w)"
proof -
  have db: "values_all (in_range 0.80 1.50) (get_or (doc_boost w) [])"
    and tp: "values_all (in_range 0.50 1.00) (get_or (topic_penalty w) [])"
    using assms by (simp_all add: in_bounds_def)
  have db1: "values_all (in_range 0.80 1.50)
      (bump ''csucp_2015'' (- 0.02) (bump ''dap_2020'' 0.02 (bump ''nppf_2024'' 0.03 (get_or (doc_boost w) []))))"
    by (intro bump_bounds db)
  have tp1: "values_all (in_range 0.50 1.00) (fold lower_penalty WATCH_LIST (get_or (topic_penalty w) []))"
    by (intro fold_lower_penalty_bounds tp)
  have "values_all (in_range 0.80 1.50) (get_or (doc_boost (auto_tune_weights t w)) [])"
    using db db1 by (simp add: auto_tune_weights_def Let_def get_or_def)
  moreover have "values_all (in_range 0.50 1.00) (get_or (topic_penalty (auto_tune_weights t w)) [])"
    using tp tp1 by (simp add: auto_tune_weights_def Let_def get_or_def)
  moreover have "topic_penalties (auto_tune_weights t w) = topic_penalties w"
    "irrelevance_penalty_per_hit (auto_tune_weights t w) = irrelevance_penalty_per_hit w"
    "doc_diversity_target (auto_tune_weights t w) = doc_diversity_target w"
    by (simp_all add: auto_tune_weights_def Let_def)
  ultimately show ?thesis using assms by (simp add: in_bounds_def)
qed

lemma empty_in_bounds: "in_bounds empty_weights"
  by (simp add: in_bounds_def empty_weights_def get_or_def values_all_Nil)

lemma batch_in_bounds:
  assumes "in_bounds w"
  shows "in_bounds (update_weights_from_feedback ls m w)"
proof -
  have tps: "values_all (at_most 4.0) (get_or (topic_penalties w) [])"
    using assms by (simp add: in_bounds_def)
  have tps1: "values_all (at_most 4.0)
      (fold raise_penalty [''leisure'', ''tourism'', ''nightlife''] (get_or (topic_penalties w) []))"
    by (intro fold_raise_penalty_bounds tps)
  have "doc_boost (update_weights_from_feedback ls m w) = doc_boost w"
    "topic_penalty (update_weights_from_feedback ls m w) = topic_penalty w"
    by (simp_all add: update_weights_from_feedback_def Let_def)
  moreover have "values_all (at_most 4.0) (get_or (topic_penalties (update_weights_from_feedback ls m w)) [])"
    using tps tps1 by (simp add: update_weights_from_feedback_def Let_def get_or_def)
  moreover have "case irrelevance_penalty_per_hit (update_weights_from_feedback ls m w) of
      None \<Rightarrow> True | Some p \<Rightarrow> p \<le> 1.5"
  proof -
    have "irrelevance_penalty_per_hit (update_weights_from_feedback ls m w) = irrelevance_penalty_per_hit w
       \<or> (\<exists>x. irrelevance_penalty_per_hit (update_weights_from_feedback ls m w) = Some (min x 1.5))"
      by (auto simp add: update_weights_from_feedback_def Let_def)
    then show ?thesis
    proof
      assume "irrelevance_penalty_per_hit (update_weights_from_feedback ls m w) = irrelevance_penalty_per_hit w"
      then show ?thesis using assms by (simp add: in_bounds_def)
    next
      assume "\<exists>x. irrelevance_penalty_per_hit (update_weights_from_feedback ls m w) = Some (min x 1.5)"
      then obtain x where "irrelevance_penalty_per_hit (update_weights_from_feedback ls m w) = Some (min x 1.5)"
        by blast
      then show ?thesis by simp
    qed
  qed
  moreover have "case doc_diversity_target (update_weights_from_feedback ls m w) of
      None \<Rightarrow> True | Some d \<Rightarrow> d \<le> 3"
  proof -
    have "doc_diversity_target (update_weights_from_feedback ls m w) = doc_diversity_target w
       \<or> (\<exists>cur. cur < 3 \<and> doc_diversity_target (update_weights_from_feedback ls m w) = Some (cur + 1))"
      by (auto simp add: update_weights_from_feedback_def Let_def)
    then show ?thesis
    proof
      assume "doc_diversity_target (update_weights_from_feedback ls m w) = doc_diversity_target w"
      then show ?thesis using assms by (simp add: in_bounds_def)
    next
      assume "\<exists>cur. cur < 3 \<and> doc_diversity_target (update_weights_from_feedback ls m w) = Some (cur + 1)"
      then obtain cur where "cur < 3" "doc_diversity_target (update_weights_from_feedback ls m w) = Some (cur + 1)"
        by blast
      then show ?thesis by simp
    qed
  qed
  ultimately show ?thesis using assms by (simp add: in_bounds_def)
qed

lemma step_in_bounds: "store_in_bounds s \<Longrightarrow> store_in_bounds (tuner_step i s)"
proof (induction i s rule: tuner_step.induct)
  case (1 t store)
  then show ?case
    by (cases store) (simp_all add: store_in_bounds_def get_or_def auto_tune_in_bounds empty_in_bounds)
qed (simp_all add: store_in_bounds_def batch_in_bounds)

lemma run_in_bounds: "store_in_bounds s \<Longrightarrow> store_in_bounds (run_tuners invs s)"
  unfolding run_tuners_def by (induction invs arbitrary: s) (simp_all add: step_in_bounds)

lemma map_of_bump: "map_of (bump doc delta db) k =
   (if k = doc then Some (clamp (get_or (map_of db doc) 1.0 + delta) 0.80 1.50) else map_of db k)"
  by (simp add: bump_def update_conv')

lemma map_of_lower_penalty: "map_of (lower_penalty d tp) k =
   (if k = d then Some (clamp (get_or (map_of tp d) 0.90 - 0.03) 0.50 1.00) else map_of tp k)"
  by (simp add: lower_penalty_def update_conv')

lemma map_of_raise_penalty: "map_of (raise_penalty d tp) k =
   (if k = d then Some (min (get_or (map_of tp d) 2.0 + 0.2) 4.0) else map_of tp k)"
  by (simp add: raise_penalty_def update_conv')

lemma lower_penalty_floor:
  "map_of tp k = Some 0.5 \<Longrightarrow> map_of (lower_penalty a tp) k = Some 0.5"
  by (auto simp add: map_of_lower_penalty get_or_def clamp_def)

lemma fold_lower_penalty_floor:
  "map_of tp k = Some 0.5 \<Longrightarrow> map_of (fold lower_penalty ks tp) k = Some 0.5"
proof (induction ks arbitrary: tp)
  case Nil
  then show ?case by simp
next
  case (Cons a ks)
  have "map_of (fold lower_penalty ks (lower_penalty a tp)) k = Some 0.5"
    by (rule Cons.IH, rule lower_penalty_floor, rule Cons.prems)
  then show ?case by simp
qed

lemma raise_penalty_cap:
  "map_of tp k = Some 4 \<Longrightarrow> map_of (raise_penalty a tp) k = Some 4"
  by (auto simp add: map_of_raise_penalty get_or_def)

lemma fold_raise_penalty_cap:
  "map_of tp k = Some 4 \<Longrightarrow> map_of (fold raise_penalty ks tp) k = Some 4"
proof (induction ks arbitrary: tp)
  case Nil
  then show ?case by simp
next
  case (Cons a ks)
  have "map_of (fold raise_penalty ks (raise_penalty a tp)) k = Some 4"
    by (rule Cons.IH, rule raise_penalty_cap, rule Cons.prems)
  then show ?case by simp
qed

text \<open>A value at the bound its trigger pushes towards stays there.\<close>

lemma doc_boost_ceiling:
  "k \<in> {''nppf_2024'', ''dap_2020''} \<Longrightarrow> lookup (doc_boost w) k = Some 1.5
   \<Longrightarrow> lookup (doc_boost (auto_tune_weights t w)) k = Some 1.5"
  by (auto simp add: lookup_def auto_tune_weights_def Let_def map_of_bump clamp_def get_or_def)

lemma doc_boost_floor:
  "lookup (doc_boost w) ''csucp_2015'' = Some 0.8
   \<Longrightarrow> lookup (doc_boost (auto_tune_weights t w)) ''csucp_2015'' = Some 0.8"
  by (auto simp add: lookup_def auto_tune_weights_def Let_def map_of_bump clamp_def get_or_def)

lemma topic_penalty_floor:
  "lookup (topic_penalty w) k = Some 0.5
   \<Longrightarrow> lookup (topic_penalty (auto_tune_weights t w)) k = Some 0.5"
  by (auto simp add: lookup_def auto_tune_weights_def Let_def fold_lower_penalty_floor get_or_Some)

lemma target_ceiling:
  "doc_diversity_target w = Some 3 \<Longrightarrow> doc_diversity_target (update_weights_from_feedback ls m w) = Some 3"
  by (simp add: update_weights_from_feedback_def Let_def get_or_def)

lemma pen_ceiling:
  "irrelevance_penalty_per_hit w = Some 1.5 \<Longrightarrow> irrelevance_penalty_per_hit (update_weights_from_feedback ls m w) = Some 1.5"
  by (simp add: update_weights_from_feedback_def Let_def get_or_def)

lemma topic_penalties_cap:
  "lookup (topic_penalties w) k = Some 4
   \<Longrightarrow> lookup (topic_penalties (update_weights_from_feedback ls m w)) k = Some 4"
  by (auto simp add: lookup_def update_weights_from_feedback_def Let_def raise_penalty_cap get_or_Some)

section \<open>Lemmas: the precedent tilt\<close>

lemma tilt_loop_fst: "fst (tilt_loop cs st) = (fst st \<or> list_ex refused_for_harm cs)"
  by (induction cs st rule: tilt_loop.induct) auto

section \<open>Lemmas: evaluating the binary64 instance\<close>

lemma log2_up_numeral:
  "log2_up (numeral n) y = (if y < 2 then 0 else 1 + log2_up (pred_numeral n) (y / 2))"
  by (simp add: numeral_eq_Suc)

lemma log2_down_numeral:
  "log2_down (numeral n) y = (if 1 \<le> y then 0 else log2_down (pred_numeral n) (y * 2) - 1)"
  by (simp add: numeral_eq_Suc)

lemmas f64 = binary64_def round64_def expo_def pow2_def rne_def sum64_def div64_def
  log2_up_numeral log2_down_numeral Let_def

section \<open>Lemmas: the averages of the decision engine\<close>

lemma top_score_Max:
  "results \<noteq> [] \<Longrightarrow> top_score results = Max (set (scores_of results))"
proof -
  assume "results \<noteq> []"
  then obtain x xs where xs: "scores_of results = x # xs"
    by (cases results) (auto simp: scores_of_def)
  have "fold max xs x = Max (set (x # xs))" by (rule Max.set_eq_fold[symmetric])
  then show ?thesis by (simp only: top_score_def xs list.case)
qed

lemma avg_score_nonempty:
  "results \<noteq> [] \<Longrightarrow>
     avg_score fp results
       = fp_div fp (fp_sum fp (scores_of results)) (real (length (scores_of results)))"
proof -
  assume "results \<noteq> []"
  then have "1 \<le> length (scores_of results)"
    by (cases results) (auto simp: scores_of_def)
  then have "max (length (scores_of results)) 1 = length (scores_of results)" by simp
  then show ?thesis by (simp add: avg_score_def)
qed

lemma policy_strength_ok:
  assumes "b_ok pb" and "3 \<le> length (policy_ev pb)"
    and "3 \<le> fp_div fp
               (fp_sum fp (take 6 (rev (sort (map (\<lambda>e. score_or_zero (ev_score e)) (policy_ev pb))))))
               (real (max 1 (length (take 6 (rev (sort (map (\<lambda>e. score_or_zero (ev_score e))
                                                         (policy_ev pb))))))))"
  shows "fst (policy_strength fp (Some pb))"
proof -
  have ne: "map (\<lambda>e. score_or_zero (ev_score e)) (policy_ev pb) \<noteq> []"
    using assms(2) by auto
  have "\<not> avg_top fp (map (\<lambda>e. score_or_zero (ev_score e)) (policy_ev pb)) 6 < 3"
    using assms(3) ne by (simp add: avg_top_def Let_def)
  then show ?thesis using assms(1,2) by (simp add: policy_strength_def Let_def)
qed

lemma case_strength_ok:
  assumes "cb_ok cb" and "1 \<le> length (cb_results cb)"
    and "2 \<le> fp_div fp
               (fp_sum fp (take 5 (rev (sort (map (\<lambda>c. score_or_zero (pr_score c)) (cb_results cb))))))
               (real (max 1 (length (take 5 (rev (sort (map (\<lambda>c. score_or_zero (pr_score c))
                                                         (cb_results cb))))))))"
  shows "fst (case_strength fp (Some cb))"
proof -
  have ne: "map (\<lambda>c. score_or_zero (pr_score c)) (cb_results cb) \<noteq> []"
    using assms(2) by auto
  have "\<not> avg_top fp (map (\<lambda>c. score_or_zero (pr_score c)) (cb_results cb)) 5 < 2"
    using assms(3) ne by (simp add: avg_top_def Let_def)
  moreover have "cb_results cb \<noteq> []" using assms(2) by auto
  ultimately show ?thesis using assms(1) by (simp add: case_strength_def Let_def)
qed

section \<open>Claims\<close>

text \<open>
  C1. Whenever the policy block reports not-ok, \<open>make_recommendation\<close> returns the decision
  \<open>insufficient_evidence\<close>, whatever the proposal text, the scores in the block, the
  precedent block, the \<open>require_precedent\<close> flag and the float arithmetic are.
\<close>

theorem gate_not_ok_insufficient:
  "\<not> b_ok pb \<Longrightarrow>
     dget (make_recommendation fp proposal (Some pb) cb rp) ''decision''
       = Some (PStr ''insufficient_evidence'')"
  by (simp add: make_recommendation_def policy_strength_def dget_def case_prod_beta)

theorem gate_not_ok_insufficient_witness:
  "\<not> b_ok (require_policy_evidence (mk_block True [mk_ev ''dap_2020'' 9, mk_ev ''nppf_2024'' 9]) 3)
   \<and> dget (make_recommendation binary64 (Some ''rear extension, overlooking'')
              (Some (require_policy_evidence
                       (mk_block True [mk_ev ''dap_2020'' 9, mk_ev ''nppf_2024'' 9]) 3))
              (Some (mk_case_block [refused_precedent 5])) True) ''decision''
       = Some (PStr ''insufficient_evidence'')"
  using gate_not_ok_insufficient
          [where pb = "require_policy_evidence
                         (mk_block True [mk_ev ''dap_2020'' 9, mk_ev ''nppf_2024'' 9]) 3"
             and fp = binary64
             and proposal = "Some ''rear extension, overlooking''"
             and cb = "Some (mk_case_block [refused_precedent 5])" and rp = True]
  by (simp add: require_policy_evidence_def mk_block_def)

text \<open>
  C2. From a weights store within its bounds, any finite sequence of per-run and batch
  tuner invocations, with any report texts and feedback lines, leaves the store within
  its bounds: every \<open>doc_boost\<close> entry in [0.80, 1.50], every \<open>topic_penalty\<close> entry (the
  per-run tuner's table) in [0.50, 1.00], every \<open>topic_penalties\<close> entry (the batch
  tuner's table) at most 4.00, \<open>irrelevance_penalty_per_hit\<close> at most 1.5 and
  \<open>doc_diversity_target\<close> at most 3. A value that sits at the bound its trigger pushes
  towards is left unchanged by a further invocation.
\<close>

theorem tuners_keep_bounds:
  "store_in_bounds store \<Longrightarrow>
     store_in_bounds (run_tuners invs store)
     \<and> (\<forall>k\<in>set [''nppf_2024'', ''dap_2020''].
          lookup (doc_boost w) k = Some 1.5
          \<longrightarrow> lookup (doc_boost (auto_tune_weights t w)) k = Some 1.5)
     \<and> (lookup (doc_boost w) ''csucp_2015'' = Some 0.8
          \<longrightarrow> lookup (doc_boost (auto_tune_weights t w)) ''csucp_2015'' = Some 0.8)
     \<and> (\<forall>k\<in>set WATCH_LIST.
          lookup (topic_penalty w) k = Some 0.5
          \<longrightarrow> lookup (topic_penalty (auto_tune_weights t w)) k = Some 0.5)
     \<and> (doc_diversity_target w = Some 3
          \<longrightarrow> doc_diversity_target (update_weights_from_feedback ls m w) = Some 3)
     \<and> (irrelevance_penalty_per_hit w = Some 1.5
          \<longrightarrow> irrelevance_penalty_per_hit (update_weights_from_feedback ls m w) = Some 1.5)
     \<and> (\<forall>k\<in>set [''leisure'', ''tourism'', ''nightlife''].
          lookup (topic_penalties w) k = Some 4
          \<longrightarrow> lookup (topic_penalties (update_weights_from_feedback ls m w)) k = Some 4)"
proof -
  assume "store_in_bounds store"
  then have "store_in_bounds (run_tuners invs store)" by (rule run_in_bounds)
  moreover have "\<forall>k\<in>set [''nppf_2024'', ''dap_2020''].
          lookup (doc_boost w) k = Some 1.5
          \<longrightarrow> lookup (doc_boost (auto_tune_weights t w)) k = Some 1.5"
    using doc_boost_ceiling[of _ w t] by simp
  moreover have "lookup (doc_boost w) ''csucp_2015'' = Some 0.8
          \<longrightarrow> lookup (doc_boost (auto_tune_weights t w)) ''csucp_2015'' = Some 0.8"
    using doc_boost_floor[of w t] by simp
  moreover have "\<forall>k\<in>set WATCH_LIST.
          lookup (topic_penalty w) k = Some 0.5
          \<longrightarrow> lookup (topic_penalty (auto_tune_weights t w)) k = Some 0.5"
    using topic_penalty_floor[of w _ t] by blast
  moreover have "doc_diversity_target w = Some 3
          \<longrightarrow> doc_diversity_target (update_weights_from_feedback ls m w) = Some 3"
    using target_ceiling[of w ls m] by simp
  moreover have "irrelevance_penalty_per_hit w = Some 1.5
          \<longrightarrow> irrelevance_penalty_per_hit (update_weights_from_feedback ls m w) = Some 1.5"
    using pen_ceiling[of w ls m] by blast
  moreover have "\<forall>k\<in>set [''leisure'', ''tourism'', ''nightlife''].
          lookup (topic_penalties w) k = Some 4
          \<longrightarrow> lookup (topic_penalties (update_weights_from_feedback ls m w)) k = Some 4"
    using topic_penalties_cap[of w _ ls m] by blast
  ultimately show ?thesis by blast
qed

theorem tuners_keep_bounds_witness:
  "store_in_bounds None
   \<and> store_in_bounds
       (run_tuners [PerRun ''Warning: low document diversity. Irrelevance signals detected.'',
                    Batch (Some [''low document diversity'', ''irrelevance'', ''ok'']) 3,
                    PerRun ''Warning: low document diversity.''] None)
   \<and> lookup (doc_boost w_at_bounds) ''nppf_2024'' = Some 1.5
   \<and> lookup (doc_boost (auto_tune_weights ''low document diversity'' w_at_bounds)) ''nppf_2024''
       = Some 1.5
   \<and> doc_diversity_target w_at_bounds = Some 3
   \<and> doc_diversity_target
       (update_weights_from_feedback [''low document diversity'', ''irrelevance'', ''ok''] 3
          w_at_bounds) = Some 3"
  using tuners_keep_bounds
          [of None
              "[PerRun ''Warning: low document diversity. Irrelevance signals detected.'',
                Batch (Some [''low document diversity'', ''irrelevance'', ''ok'']) 3,
                PerRun ''Warning: low document diversity.'']"
              w_at_bounds "''low document diversity''"
              "[''low document diversity'', ''irrelevance'', ''ok'']" 3]
  by (simp add: store_in_bounds_def lookup_def w_at_bounds_def get_or_def)




text \<open>
  C4, as amended. \<open>score_item\<close> returns the maximum of \<open>min_score_floor\<close> and
  \<open>raw_score * doc_boost[doc_key] * (1 + (c3_keyword_boost - 1) * min(1, hits / 3))
  * \<Prod>(1 / m) - n * irrelevance_penalty_per_hit\<close>, where \<open>hits\<close> counts the non-empty
  entries of \<open>c3_keywords\<close> contained, lower-cased, in the lower-cased text, the product
  and \<open>n\<close> range over the entries of \<open>topic_penalties\<close> whose non-empty key is so
  contained, and \<open>m\<close> is the entry's multiplier, a multiplier of 0 counting as 1. The
  defaults are 1.0 for a missing \<open>doc_boost\<close> entry and for \<open>c3_keyword_boost\<close>, 0.7 for
  \<open>irrelevance_penalty_per_hit\<close> and 0.1 for \<open>min_score_floor\<close>.
\<close>

theorem score_item_formula:
  "score_item txt raw_score doc_key w =
     max (get_or (min_score_floor w) 0.1)
       (raw_score * get_or (map_of (get_or (doc_boost w) []) doc_key) 1.0
          * (1 + (get_or (c3_keyword_boost w) 1.0 - 1)
                 * min 1 (real (length (matching_keywords (get_or (c3_keywords w) []) txt)) / 3))
          * prod_list (map (\<lambda>(topic, mult). 1 / (if mult = 0 then 1 else mult))
                           (matching_topics (get_or (topic_penalties w) []) txt))
        - real (length (matching_topics (get_or (topic_penalties w) []) txt))
          * get_or (irrelevance_penalty_per_hit w) 0.7)"
  by (simp add: score_item_def count_hits_filter penalty_loop_filter Let_def max_def)

theorem score_item_formula_witness:
  "score_item ''Flood risk and drainage'' 3 ''dap_2020''
     (empty_weights\<lparr> c3_keyword_boost := Some 2, c3_keywords := Some [''flood'', ''suds''],
                    doc_boost := Some [(''dap_2020'', 1.5)],
                    topic_penalties := Some [(''drainage'', 2)] \<rparr>) = 2.3"
  using score_item_formula
          [of "''Flood risk and drainage''" 3 "''dap_2020''"
              "empty_weights\<lparr> c3_keyword_boost := Some 2, c3_keywords := Some [''flood'', ''suds''],
                    doc_boost := Some [(''dap_2020'', 1.5)],
                    topic_penalties := Some [(''drainage'', 2)] \<rparr>"]
  by (simp add: empty_weights_def get_or_def matching_keywords_def matching_topics_def
      lower_def lower_char_def)

text \<open>
  C4 as stated fails on an empty keyword: the empty string is contained in every text,
  so the stated formula counts one hit and gives 4, while \<open>score_item\<close> skips the empty
  keyword and returns 3.
\<close>

theorem score_item_formula_counterexample:
  "score_item ''flood risk'' 3 ''dap_2020'' w_empty_kw = 3
   \<and> claimed_score ''flood risk'' 3 ''dap_2020'' w_empty_kw = 4"
  by (simp add: score_item_def claimed_score_def w_empty_kw_def empty_weights_def get_or_def
      lower_def)

text \<open>
  C5. On a non-empty results list, with \<open>a\<close> the average as the code computes it (the
  float sum of the scores divided by their number) and \<open>t\<close> the largest score,
  \<open>weigh_balance\<close> returns \<open>approve_with_conditions\<close> with confidence 0.70 when \<open>a \<ge> 4.0\<close>
  and \<open>t \<ge> 4.5\<close>, \<open>insufficient_evidence\<close> with confidence 0.25 when \<open>a < 2.5\<close>, and
  \<open>needs_officer_review\<close> with confidence 0.45 otherwise. A missing score counts as 0.0.
\<close>

theorem weigh_balance_thresholds:
  "b_results pb \<noteq> [] \<Longrightarrow>
     (let scores = map (\<lambda>r. score_or_zero (ev_score r)) (b_results pb);
          a = fp_div fp (fp_sum fp scores) (real (length scores));
          t = Max (set scores);
          r = weigh_balance fp proposal (Some pb) in
      (a \<ge> 4.0 \<and> t \<ge> 4.5
         \<longrightarrow> dget r ''decision'' = Some (PStr ''approve_with_conditions'')
             \<and> dget r ''confidence'' = Some (PFloat 0.70))
      \<and> (a < 2.5
         \<longrightarrow> dget r ''decision'' = Some (PStr ''insufficient_evidence'')
             \<and> dget r ''confidence'' = Some (PFloat 0.25))
      \<and> (\<not> (a \<ge> 4.0 \<and> t \<ge> 4.5) \<and> \<not> a < 2.5
         \<longrightarrow> dget r ''decision'' = Some (PStr ''needs_officer_review'')
             \<and> dget r ''confidence'' = Some (PFloat 0.45)))"
proof -
  assume ne: "b_results pb \<noteq> []"
  have a: "avg_score fp (b_results pb)
      = fp_div fp (fp_sum fp (map (\<lambda>r. score_or_zero (ev_score r)) (b_results pb)))
          (real (length (map (\<lambda>r. score_or_zero (ev_score r)) (b_results pb))))"
    using avg_score_nonempty[OF ne, of fp] by (simp add: scores_of_def)
  have t: "top_score (b_results pb)
      = Max (set (map (\<lambda>r. score_or_zero (ev_score r)) (b_results pb)))"
    using top_score_Max[OF ne] by (simp add: scores_of_def)
  have d: "dget (weigh_balance fp proposal (Some pb)) ''decision''
      = Some (PStr (fst (balance_rule (avg_score fp (b_results pb)) (top_score (b_results pb)))))"
    using ne by (simp add: weigh_balance_def dget_def Let_def case_prod_beta)
  have c: "dget (weigh_balance fp proposal (Some pb)) ''confidence''
      = Some (PFloat (snd (balance_rule (avg_score fp (b_results pb)) (top_score (b_results pb)))))"
    using ne by (simp add: weigh_balance_def dget_def Let_def case_prod_beta)
  show ?thesis
    unfolding Let_def d c a t by (simp add: balance_rule_def)
qed

theorem weigh_balance_thresholds_witness:
  "fp_div binary64 (fp_sum binary64 [4.5, 3.5 - 1 / 2 ^ 51]) 2 = 4
   \<and> dget (weigh_balance binary64 (Some ''rear extension'')
              (Some (mk_block True [mk_ev ''a'' 4.5, mk_ev ''b'' (3.5 - 1 / 2 ^ 51)]))) ''decision''
       = Some (PStr ''approve_with_conditions'')
   \<and> dget (weigh_balance binary64 (Some ''rear extension'')
              (Some (mk_block True [mk_ev ''a'' 4.5, mk_ev ''b'' (3.5 - 1 / 2 ^ 51)]))) ''confidence''
       = Some (PFloat 0.70)
   \<and> dget (weigh_balance binary64 None (Some (mk_block True [mk_ev ''a'' 2, mk_ev ''b'' 2])))
          ''decision'' = Some (PStr ''insufficient_evidence'')
   \<and> dget (weigh_balance binary64 None (Some (mk_block True [mk_ev ''a'' 2, mk_ev ''b'' 2])))
          ''confidence'' = Some (PFloat 0.25)
   \<and> dget (weigh_balance binary64 None (Some (mk_block True [mk_ev ''a'' 3, mk_ev ''b'' 3])))
          ''decision'' = Some (PStr ''needs_officer_review'')
   \<and> dget (weigh_balance binary64 None (Some (mk_block True [mk_ev ''a'' 3, mk_ev ''b'' 3])))
          ''confidence'' = Some (PFloat 0.45)"
  using weigh_balance_thresholds
          [where pb = "mk_block True [mk_ev ''a'' 4.5, mk_ev ''b'' (3.5 - 1 / 2 ^ 51)]"
             and fp = binary64 and proposal = "Some ''rear extension''"]
        weigh_balance_thresholds
          [where pb = "mk_block True [mk_ev ''a'' 2, mk_ev ''b'' 2]"
             and fp = binary64 and proposal = None]
        weigh_balance_thresholds
          [where pb = "mk_block True [mk_ev ''a'' 3, mk_ev ''b'' 3]"
             and fp = binary64 and proposal = None]
  by (simp add: mk_block_def mk_ev_def score_or_zero_def f64)

text \<open>
  C6, as amended. When \<open>weigh_balance\<close> returns \<open>insufficient_evidence\<close>, the result
  carries a confidence: 0.0 when the results list is empty or missing and 0.25
  otherwise, so at most 0.25. \<open>make_recommendation\<close> returns no confidence on any path.
\<close>

theorem insufficient_confidence:
  "(dget (weigh_balance fp proposal pb) ''decision'' = Some (PStr ''insufficient_evidence'')
      \<longrightarrow> dget (weigh_balance fp proposal pb) ''confidence''
            = Some (PFloat (if (case pb of None \<Rightarrow> [] | Some p \<Rightarrow> b_results p) = []
                            then 0.0 else 0.25))
          \<and> (\<exists>c. dget (weigh_balance fp proposal pb) ''confidence'' = Some (PFloat c) \<and> c \<le> 0.25))
   \<and> dget (make_recommendation fp proposal pb cb rp) ''confidence'' = None"
  by (simp add: weigh_balance_def make_recommendation_def dget_def Let_def case_prod_beta
      balance_rule_def)

theorem insufficient_confidence_witness:
  "dget (weigh_balance binary64 None None) ''decision'' = Some (PStr ''insufficient_evidence'')
   \<and> dget (weigh_balance binary64 None None) ''confidence'' = Some (PFloat 0)
   \<and> dget (weigh_balance binary64 (Some ''porch'')
              (Some (mk_block True [mk_ev ''a'' 2.25, mk_ev ''b'' 1.5]))) ''decision''
       = Some (PStr ''insufficient_evidence'')
   \<and> dget (weigh_balance binary64 (Some ''porch'')
              (Some (mk_block True [mk_ev ''a'' 2.25, mk_ev ''b'' 1.5]))) ''confidence''
       = Some (PFloat 0.25)
   \<and> dget (make_recommendation binary64 None None None False) ''confidence'' = None"
proof -
  have a: "dget (weigh_balance binary64 None None) ''decision''
      = Some (PStr ''insufficient_evidence'')"
    by (simp add: weigh_balance_def dget_def)
  have b: "dget (weigh_balance binary64 (Some ''porch'')
              (Some (mk_block True [mk_ev ''a'' 2.25, mk_ev ''b'' 1.5]))) ''decision''
       = Some (PStr ''insufficient_evidence'')"
    by (simp add: weigh_balance_def dget_def Let_def case_prod_beta balance_rule_def
        avg_score_def top_score_def scores_of_def mk_block_def mk_ev_def score_or_zero_def f64)
  show ?thesis
    using a b
      insufficient_confidence
        [where fp = binary64 and proposal = None and pb = None and cb = None and rp = False]
      insufficient_confidence
        [where fp = binary64 and proposal = "Some ''porch''"
           and pb = "Some (mk_block True [mk_ev ''a'' 2.25, mk_ev ''b'' 1.5])"
           and cb = None and rp = False]
    by (simp add: mk_block_def)
qed

text \<open>
  C6 as stated fails for \<open>make_recommendation\<close>: on a missing policy block it returns
  \<open>insufficient_evidence\<close> and a dict without the key \<open>confidence\<close>.
\<close>

theorem insufficient_confidence_counterexample:
  "dget (make_recommendation binary64 None None None False) ''decision''
     = Some (PStr ''insufficient_evidence'')
   \<and> dget (make_recommendation binary64 None None None False) ''confidence'' = None"
  by (simp add: make_recommendation_def policy_strength_def dget_def case_prod_beta)

text \<open>
  C7, as amended. Let the policy strength check pass (the block is ok, it has at least
  three evidence items and the float average of its six highest scores is at least
  3.0) and the precedent strength check pass (the precedent block is ok, it has at
  least one result and the float average of its five highest scores is at least 2.0),
  whether or not precedents are required. If the lower-cased proposal text contains one
  of the four harm phrases and one of the first five precedent results has a decision
  containing \<open>refus\<close> and reasons mentioning \<open>loss of daylight\<close>, \<open>overbearing\<close>, \<open>privacy\<close>
  or \<open>overlooking\<close>, then \<open>make_recommendation\<close> returns \<open>refuse\<close> with no conditions and
  the amenity-harm refusal reason as its only refusal reason.
\<close>

theorem harm_and_refused_precedent_refuse:
  assumes "b_ok pb"
    and "3 \<le> length (policy_ev pb)"
    and "3 \<le> fp_div fp
               (fp_sum fp (take 6 (rev (sort (map (\<lambda>e. score_or_zero (ev_score e)) (policy_ev pb))))))
               (real (max 1 (length (take 6 (rev (sort (map (\<lambda>e. score_or_zero (ev_score e))
                                                         (policy_ev pb))))))))"
    and "cb_ok cb"
    and "1 \<le> length (cb_results cb)"
    and "2 \<le> fp_div fp
               (fp_sum fp (take 5 (rev (sort (map (\<lambda>c. score_or_zero (pr_score c)) (cb_results cb))))))
               (real (max 1 (length (take 5 (rev (sort (map (\<lambda>c. score_or_zero (pr_score c))
                                                         (cb_results cb))))))))"
    and "\<exists>k\<in>set [''loss of light'', ''overlooking'', ''overbearing'', ''unacceptable''].
           str_in k (lower (or_empty proposal))"
    and "\<exists>c\<in>set (take 5 (cb_results cb)).
           str_in ''refus'' (lower (or_empty (pr_decision c)))
           \<and> (\<exists>k\<in>set [''loss of daylight'', ''overbearing'', ''privacy'', ''overlooking''].
                 str_in k (lower (reasons_of c)))"
  shows "dget (make_recommendation fp proposal (Some pb) (Some cb) rp) ''decision''
           = Some (PStr ''refuse'')
         \<and> dget (make_recommendation fp proposal (Some pb) (Some cb) rp) ''draft_conditions''
           = Some (PStrs [])
         \<and> dget (make_recommendation fp proposal (Some pb) (Some cb) rp) ''draft_refusal_reasons''
           = Some (PStrs [REFUSAL_AMENITY])"
proof -
  have p: "fst (policy_strength fp (Some pb))"
    using assms(1,2,3) by (rule policy_strength_ok)
  have c: "fst (case_strength fp (Some cb))"
    using assms(4,5,6) by (rule case_strength_ok)
  have h: "harm_flags proposal"
    using assms(7) by (simp add: harm_flags_def any_in_def list_ex_iff)
  have r: "list_ex refused_for_harm (take 5 (cb_results cb))"
    using assms(8) unfolding list_ex_iff refused_for_harm_def any_in_def by simp
  show ?thesis
    using p c h r
    by (simp add: make_recommendation_def dget_def Let_def case_prod_beta tilt_loop_fst)
qed

theorem harm_and_refused_precedent_refuse_witness:
  "fp_div binary64 (fp_sum binary64 [4, 4, 4]) 3 = 4
   \<and> fp_div binary64 (fp_sum binary64 [3]) 1 = 3
   \<and> dget (make_recommendation binary64 (Some ''Overlooking of the garden, which is unacceptable'')
              (Some (mk_block True [mk_ev ''a'' 4, mk_ev ''b'' 4, mk_ev ''c'' 4]))
              (Some (mk_case_block [refused_precedent 3])) True) ''decision''
       = Some (PStr ''refuse'')
   \<and> dget (make_recommendation binary64 (Some ''Overlooking of the garden, which is unacceptable'')
              (Some (mk_block True [mk_ev ''a'' 4, mk_ev ''b'' 4, mk_ev ''c'' 4]))
              (Some (mk_case_block [refused_precedent 3])) True) ''draft_conditions''
       = Some (PStrs [])"
  using harm_and_refused_precedent_refuse
          [where pb = "mk_block True [mk_ev ''a'' 4, mk_ev ''b'' 4, mk_ev ''c'' 4]"
             and fp = binary64
             and cb = "mk_case_block [refused_precedent 3]"
             and proposal = "Some ''Overlooking of the garden, which is unacceptable''"
             and rp = True]
  by (simp add: policy_ev_def mk_block_def mk_ev_def mk_case_block_def refused_precedent_def
      score_or_zero_def reasons_of_def or_empty_def lower_def lower_char_def f64)

text \<open>
  C7 as stated fails when precedents are not required and the precedent strength check
  does not pass: with one refused precedent of score 1 (average below 2) the tilt loop
  is not run and the decision is \<open>approve_with_conditions\<close>.
\<close>

theorem harm_and_refused_precedent_refuse_counterexample:
  "fst (policy_strength binary64 (Some (mk_block True [mk_ev ''a'' 4, mk_ev ''b'' 4, mk_ev ''c'' 4])))
   \<and> harm_flags (Some ''Overlooking of the garden, which is unacceptable'')
   \<and> list_ex refused_for_harm (take 5 (cb_results (mk_case_block [refused_precedent 1])))
   \<and> dget (make_recommendation binary64 (Some ''Overlooking of the garden, which is unacceptable'')
              (Some (mk_block True [mk_ev ''a'' 4, mk_ev ''b'' 4, mk_ev ''c'' 4]))
              (Some (mk_case_block [refused_precedent 1])) False) ''decision''
       = Some (PStr ''approve_with_conditions'')"
  by (simp add: make_recommendation_def dget_def policy_strength_def policy_ev_def
      case_strength_def avg_top_def mk_block_def mk_ev_def mk_case_block_def
      refused_precedent_def score_or_zero_def harm_flags_def refused_for_harm_def
      reasons_of_def any_in_def or_empty_def lower_def lower_char_def
      draft_householder_conditions_def f64)

text \<open>
  C8. Reranking the output of \<open>rerank_policy\<close> again under the same weights returns the
  same evidence list in the same order.
\<close>

theorem rerank_fixed_point:
  "snd (rerank_policy (fst (rerank_policy cits ev wts)) (snd (rerank_policy cits ev wts)) wts)
     = snd (rerank_policy cits ev wts)"
proof -
  define w where "w = load_weights wts"
  define t where "t = get_or (doc_diversity_target wts) 3"
  define m where "m = get_or (max_evidence_items wts) 10"
  define S where "S = sort_desc (map (attach_score w) ev)"
  define P where "P = select t m S"
  have P: "rerank_evidence ev wts = P"
    by (simp add: rerank_select P_def S_def w_def t_def m_def)
  have "set P \<subseteq> set S" unfolding P_def by (rule set_select)
  then have fx: "map (attach_score w) P = P" unfolding S_def by (rule attach_fixed)
  have "rerank_evidence P wts = select t m (sort_desc (map (attach_score w) P))"
    by (simp add: rerank_select w_def t_def m_def)
  also have "\<dots> = select t m (sort_key nkey (select t m S))"
    unfolding fx by (simp add: sort_desc_def P_def)
  also have "\<dots> = select t m S"
    by (rule select_fix) (simp add: S_def sorted_sort_desc)
  finally have "rerank_evidence P wts = P" unfolding P_def .
  then show ?thesis by (simp add: rerank_policy_def Let_def P)
qed

theorem rerank_fixed_point_witness:
  "snd (rerank_policy [] [mk_ev ''a'' 5, mk_ev ''a'' 4, mk_ev ''b'' 3]
          (empty_weights\<lparr>doc_diversity_target := Some 2\<rparr>))
     = map (\<lambda>(k, s). (mk_ev k s)\<lparr>ev_rerank_score := Some s\<rparr>) [(''a'', 5), (''b'', 3), (''a'', 4)]
   \<and> snd (rerank_policy
            (fst (rerank_policy [] [mk_ev ''a'' 5, mk_ev ''a'' 4, mk_ev ''b'' 3]
                    (empty_weights\<lparr>doc_diversity_target := Some 2\<rparr>)))
            (snd (rerank_policy [] [mk_ev ''a'' 5, mk_ev ''a'' 4, mk_ev ''b'' 3]
                    (empty_weights\<lparr>doc_diversity_target := Some 2\<rparr>)))
            (empty_weights\<lparr>doc_diversity_target := Some 2\<rparr>))
     = map (\<lambda>(k, s). (mk_ev k s)\<lparr>ev_rerank_score := Some s\<rparr>) [(''a'', 5), (''b'', 3), (''a'', 4)]"
proof -
  have a: "snd (rerank_policy [] [mk_ev ''a'' 5, mk_ev ''a'' 4, mk_ev ''b'' 3]
          (empty_weights\<lparr>doc_diversity_target := Some 2\<rparr>))
     = map (\<lambda>(k, s). (mk_ev k s)\<lparr>ev_rerank_score := Some s\<rparr>) [(''a'', 5), (''b'', 3), (''a'', 4)]"
    by (simp add: rerank_policy_def rerank_evidence_def Let_def load_weights_def setdefault_def
        get_or_def empty_weights_def sort_desc_def nkey_def rerank_key_def attach_score_def
        score_item_def mk_ev_def item_text_def or_empty_def dkey_def score_or_zero_def lower_def)
  show ?thesis
    using a rerank_fixed_point [of "[]" "[mk_ev ''a'' 5, mk_ev ''a'' 4, mk_ev ''b'' 3]"
                                  "empty_weights\<lparr>doc_diversity_target := Some 2\<rparr>"]
    by simp
qed

text \<open>
  C9, as amended. \<open>require_policy_evidence\<close> returns not-ok exactly when the upstream
  provider reported not-ok or there are fewer than \<open>min_results\<close> results. In that case
  the reason is the upstream reason when that is a non-empty string and the text
  \<open>Insufficient policy evidence\<close> otherwise, and citations and evidence are empty. In the
  ok case the reason is absent, the evidence is the results list and the citations are
  built one for one from the results.
\<close>

theorem gate_result:
  "(let out = require_policy_evidence r m in
      (\<not> b_ok out \<longleftrightarrow> (\<not> b_ok r \<or> int (length (b_results r)) < m))
      \<and> (\<not> b_ok out
           \<longrightarrow> b_reason out = (if b_reason r = None \<or> b_reason r = Some []
                                then Some ''Insufficient policy evidence'' else b_reason r)
               \<and> b_citations out = [] \<and> b_evidence out = [])
      \<and> (b_ok out
           \<longrightarrow> b_reason out = None \<and> b_citations out = map cite (b_results r)
               \<and> b_evidence out = b_results r))"
  by (auto simp add: require_policy_evidence_def Let_def reason_or_default_def
      split: option.splits)

theorem gate_result_witness:
  "\<not> b_ok (require_policy_evidence (mk_block True [mk_ev ''a'' 4, mk_ev ''b'' 4]) 3)
   \<and> b_reason (require_policy_evidence (mk_block True [mk_ev ''a'' 4, mk_ev ''b'' 4]) 3)
       = Some ''Insufficient policy evidence''
   \<and> b_ok (require_policy_evidence (mk_block True [mk_ev ''a'' 4, mk_ev ''b'' 4]) 2)
   \<and> b_citations (require_policy_evidence (mk_block True [mk_ev ''a'' 4, mk_ev ''b'' 4]) 2)
       = [cite (mk_ev ''a'' 4), cite (mk_ev ''b'' 4)]"
  using gate_result [of "mk_block True [mk_ev ''a'' 4, mk_ev ''b'' 4]" 3]
        gate_result [of "mk_block True [mk_ev ''a'' 4, mk_ev ''b'' 4]" 2]
  by (simp add: mk_block_def Let_def)

text \<open>
  C9 as stated fails on the reason: for a not-ok retrieval output without a reason the
  gate answers \<open>Insufficient policy evidence\<close>, and an upstream reason is passed through
  as it is; neither is in the stated vocabulary.
\<close>

theorem gate_result_counterexample:
  "b_reason (require_policy_evidence (mk_block False []) 3)
     = Some ''Insufficient policy evidence''
   \<and> ''Insufficient policy evidence''
       \<notin> set [''no_policy_results'', ''policy_results_too_few'', ''policy_scores_too_low'',
               ''insufficient_policy_evidence'']
   \<and> b_reason (require_policy_evidence ((mk_block False [])\<lparr>b_reason := Some ''index_missing''\<rparr>) 3)
     = Some ''index_missing''"
  by (simp add: require_policy_evidence_def mk_block_def reason_or_default_def)

text \<open>
  C10. \<open>score_item\<close> does not read the key \<open>topic_penalty\<close>: two weights configurations
  that differ only there score every item alike. The per-run tuner leaves the key
  \<open>topic_penalties\<close>, which \<open>score_item\<close> reads, as it was.
\<close>

theorem score_ignores_topic_penalty:
  "score_item txt base_score doc_key (w\<lparr>topic_penalty := tp\<rparr>) = score_item txt base_score doc_key w
   \<and> topic_penalties (auto_tune_weights t w) = topic_penalties w"
  by (simp add: score_item_def auto_tune_weights_def Let_def)

theorem score_ignores_topic_penalty_witness:
  "score_item ''Leisure and tourism uses'' 4 ''dap_2020''
       (empty_weights\<lparr>topic_penalty := Some [(''leisure'', 0.5)]\<rparr>)
     = score_item ''Leisure and tourism uses'' 4 ''dap_2020'' empty_weights
   \<and> topic_penalties (auto_tune_weights ''irrelevance signals detected'' empty_weights) = None"
  using score_ignores_topic_penalty
          [of "''Leisure and tourism uses''" 4 "''dap_2020''"
              "Some [(''leisure'', 0.5)]" empty_weights "''irrelevance signals detected''"]
  by (simp add: empty_weights_def)

end
